theory Spec2Isabelle
  imports Complex_Main "HOL-Library.Multiset" "HOL-Library.Log_Nat"
begin

section \<open>The datastore: tables, constraints and row-level security\<close>

text \<open>
  The schema is the migration that creates the tables (\<^verbatim>\<open>CREATE TABLE public.votes ...\<close>,
  the \<^verbatim>\<open>CREATE POLICY\<close> statements and \<^verbatim>\<open>has_role\<close>). Every key is a UUID column
  that the code only compares for equality; a UUID is modelled as a natural number.
  Columns that no modelled function reads (titles, timestamps, photo URLs) are left out
  of the rows, and so is the generated primary key of a ballot, which \<^verbatim>\<open>loadElection\<close>
  selects only to see whether a row exists.
\<close>

type_synonym uuid = nat

datatype app_role = RoleUser | RoleAdmin

text \<open>\<^verbatim>\<open>status TEXT ... CHECK (status IN ('scheduled', 'active', 'paused', 'ended'))\<close>\<close>

datatype election_status = Scheduled | Active | Paused | Ended

text \<open>
  \<^verbatim>\<open>face_registered\<close>, \<^verbatim>\<open>results_published\<close> and \<^verbatim>\<open>face_verified\<close> are
  \<^verbatim>\<open>BOOLEAN DEFAULT FALSE\<close> without \<^verbatim>\<open>NOT NULL\<close>: the column holds true, false or
  NULL (\<open>None\<close>). The TypeScript tests them for truthiness.
\<close>

definition truthy :: "bool option \<Rightarrow> bool" where
  "truthy b = (b = Some True)"

record profile =
  p_id :: uuid
  p_face_registered :: "bool option"

record user_role =
  ur_user_id :: uuid
  ur_role :: app_role

record election =
  e_id :: uuid
  e_status :: election_status
  e_results_published :: "bool option"

record candidate =
  c_id :: uuid
  c_election_id :: uuid
  c_name :: string
  c_party :: string

record vote =
  v_election_id :: uuid
  v_candidate_id :: uuid
  v_voter_id :: uuid
  v_vote_receipt :: string
  v_face_verified :: "bool option"

text \<open>A table is the list of its rows, in the order a \<^verbatim>\<open>select\<close> returns them.\<close>

record db =
  profiles :: "profile list"
  user_roles :: "user_role list"
  elections :: "election list"
  candidates :: "candidate list"
  votes :: "vote list"

text \<open>
  \<^verbatim>\<open>auth.uid()\<close> is the identity of the session that sends the statement, NULL (\<open>None\<close>)
  for a visitor who is not signed in. A comparison with NULL is not true.
\<close>

definition has_role :: "db \<Rightarrow> uuid option \<Rightarrow> app_role \<Rightarrow> bool" where
  "has_role d user_id role =
     list_ex (\<lambda>r. user_id = Some (ur_user_id r) \<and> ur_role r = role) (user_roles d)"

text \<open>
  The policies of one table and one command are permissive: a row passes when one of
  them holds.
  \<^item> elections, SELECT: \<^verbatim>\<open>status IN ('active', 'ended')\<close>, or the admin policy;
  \<^item> candidates, SELECT: \<^verbatim>\<open>TRUE\<close>;
  \<^item> votes, SELECT: \<^verbatim>\<open>auth.uid() = voter_id\<close>, or \<^verbatim>\<open>has_role(auth.uid(), 'admin')\<close>;
  \<^item> votes, INSERT: \<^verbatim>\<open>WITH CHECK (auth.uid() = voter_id)\<close>;
  \<^item> elections, UPDATE: only \<^verbatim>\<open>has_role(auth.uid(), 'admin')\<close>.
\<close>

definition elections_select :: "db \<Rightarrow> uuid option \<Rightarrow> election list" where
  "elections_select d uid =
     filter (\<lambda>e. e_status e = Active \<or> e_status e = Ended \<or> has_role d uid RoleAdmin)
       (elections d)"

definition candidates_select :: "db \<Rightarrow> uuid option \<Rightarrow> candidate list" where
  "candidates_select d uid = candidates d"

definition votes_select :: "db \<Rightarrow> uuid option \<Rightarrow> vote list" where
  "votes_select d uid =
     filter (\<lambda>v. uid = Some (v_voter_id v) \<or> has_role d uid RoleAdmin) (votes d)"

definition profiles_select :: "db \<Rightarrow> uuid option \<Rightarrow> profile list" where
  "profiles_select d uid =
     filter (\<lambda>p. uid = Some (p_id p) \<or> has_role d uid RoleAdmin) (profiles d)"

text \<open>
  \<^verbatim>\<open>.single()\<close> of the client: the row when the query returns exactly one, otherwise
  \<^verbatim>\<open>data: null\<close> (with an error that the pages do not read).
\<close>

fun single_row :: "'a list \<Rightarrow> 'a option" where
  "single_row [x] = Some x"
| "single_row _ = None"

text \<open>\<^verbatim>\<open>from("elections").select("*").eq("id", electionId).single()\<close>, used by both pages.\<close>

definition election_by_id :: "db \<Rightarrow> uuid option \<Rightarrow> uuid \<Rightarrow> election option" where
  "election_by_id d uid electionId =
     single_row (filter (\<lambda>e. e_id e = electionId) (elections_select d uid))"

text \<open>
  Errors of an \<^verbatim>\<open>INSERT INTO votes\<close>. The row-level check comes first, the unique
  indexes are checked when the row is written (\<^verbatim>\<open>vote_receipt\<close>, then
  \<^verbatim>\<open>(election_id, voter_id)\<close>), the foreign keys after it.
\<close>

datatype pg_error =
    NotNullViolation string
  | RlsViolation
  | UniqueViolation string
  | ForeignKeyViolation string

definition votes_insert :: "db \<Rightarrow> uuid option \<Rightarrow> vote \<Rightarrow> pg_error + db" where
  "votes_insert d uid row =
     (if uid \<noteq> Some (v_voter_id row) then Inl RlsViolation
      else if list_ex (\<lambda>v. v_vote_receipt v = v_vote_receipt row) (votes d)
        then Inl (UniqueViolation ''votes_vote_receipt_key'')
      else if list_ex (\<lambda>v. v_election_id v = v_election_id row \<and> v_voter_id v = v_voter_id row)
                (votes d)
        then Inl (UniqueViolation ''votes_election_id_voter_id_key'')
      else if \<not> list_ex (\<lambda>e. e_id e = v_election_id row) (elections d)
        then Inl (ForeignKeyViolation ''votes_election_id_fkey'')
      else if \<not> list_ex (\<lambda>c. c_id c = v_candidate_id row) (candidates d)
        then Inl (ForeignKeyViolation ''votes_candidate_id_fkey'')
      else if \<not> list_ex (\<lambda>p. p_id p = v_voter_id row) (profiles d)
        then Inl (ForeignKeyViolation ''votes_voter_id_fkey'')
      else Inr (d\<lparr>votes := votes d @ [row]\<rparr>))"

text \<open>
  \<^verbatim>\<open>updateElectionStatus\<close> of the election management page:
  \<^verbatim>\<open>from("elections").update({ status }).eq("id", id)\<close>. The update touches the rows its
  policy lets the session see: all for an admin, none otherwise (and no error).
\<close>

definition updateElectionStatus :: "db \<Rightarrow> uuid option \<Rightarrow> uuid \<Rightarrow> election_status \<Rightarrow> db" where
  "updateElectionStatus d uid ident status =
     (if has_role d uid RoleAdmin
      then d\<lparr>elections := map (\<lambda>e. if e_id e = ident then e\<lparr>e_status := status\<rparr> else e)
                               (elections d)\<rparr>
      else d)"

text \<open>The store's constraint \<^verbatim>\<open>UNIQUE(election_id, voter_id)\<close> as a predicate on the table.\<close>

definition votes_unique :: "db \<Rightarrow> bool" where
  "votes_unique d = distinct (map (\<lambda>v. (v_election_id v, v_voter_id v)) (votes d))"

text \<open>The primary key of \<^verbatim>\<open>candidates\<close>.\<close>

definition candidates_pkey :: "db \<Rightarrow> bool" where
  "candidates_pkey d = distinct (map c_id (candidates d))"

text \<open>The primary key of \<^verbatim>\<open>elections\<close>.\<close>

definition elections_pkey :: "db \<Rightarrow> bool" where
  "elections_pkey d = distinct (map e_id (elections d))"

section \<open>The results page\<close>

text \<open>
  \<^verbatim>\<open>type CandidateResult\<close>: the candidate's row (\<^verbatim>\<open>...candidate\<close>) with \<^verbatim>\<open>votes\<close> and
  \<^verbatim>\<open>percentage\<close>. The count is an integer; the percentage is a JavaScript number, a
  double, held here as the rational that the double is.
\<close>

record candidate_result =
  r_candidate :: candidate
  r_votes :: nat
  r_percentage :: rat

record results_page =
  rp_election :: "election option"
  rp_results :: "candidate_result list"
  rp_totalVotes :: nat
  rp_loading :: bool
  rp_navigated :: "string option"

definition results_initial :: results_page where
  "results_initial =
     \<lparr>rp_election = None, rp_results = [], rp_totalVotes = 0, rp_loading = True,
      rp_navigated = None\<rparr>"

text \<open>\<^verbatim>\<open>acc[k] || 0\<close>: a missing key reads as \<^verbatim>\<open>undefined\<close>, which is falsy.\<close>

fun or_zero :: "nat option \<Rightarrow> nat" where
  "or_zero None = 0"
| "or_zero (Some n) = n"

text \<open>
  \<^verbatim>\<open>votesData.reduce((acc, vote) => { acc[vote.candidate_id] = (acc[vote.candidate_id] || 0) + 1;
  return acc; }, {})\<close>, over the \<^verbatim>\<open>candidate_id\<close> column of the rows read. The keys are
  UUIDs, so none of them names a property that the empty object inherits.
\<close>

definition voteCounts :: "uuid list \<Rightarrow> (uuid \<rightharpoonup> nat)" where
  "voteCounts votesData =
     fold (\<lambda>candidate_id acc. acc(candidate_id \<mapsto> or_zero (acc candidate_id) + 1))
       votesData Map.empty"

text \<open>
  A JavaScript number is an IEEE 754 double: 53 significant bits, every operation
  rounded to the nearest double, ties to the even significand. \<open>expo x\<close> is the binary
  exponent of a positive \<open>x\<close> (\<open>2 powi expo x \<le> x < 2 powi (expo x + 1)\<close>), so the doubles
  next to \<open>x\<close> are the multiples of \<open>2 powi (expo x - 52)\<close>. The numbers rounded here are a
  quotient of two counts and its product with 100: an array has fewer than \<open>2 ^ 32\<close>
  elements, so the counts are doubles themselves and every value is 0 or lies between
  \<open>1 / 2 ^ 32\<close> and 100, where neither subnormal numbers nor overflow occur; they are not
  modelled.
\<close>

definition expo :: "rat \<Rightarrow> int" where
  "expo x =
     (let p = fst (quotient_of x); q = snd (quotient_of x); d = bitlen p - bitlen q
      in if 2 powi d \<le> x then d else d - 1)"

definition round_ties_even :: "rat \<Rightarrow> int" where
  "round_ties_even q =
     (let f = \<lfloor>q\<rfloor>; r = q - of_int f
      in if r < 1 / 2 then f else if 1 / 2 < r then f + 1 else if even f then f else f + 1)"

definition round_double :: "rat \<Rightarrow> rat" where
  "round_double x =
     (if x = 0 then 0
      else let ulp = 2 powi (expo \<bar>x\<bar> - 52)
           in sgn x * of_int (round_ties_even (\<bar>x\<bar> / ulp)) * ulp)"

text \<open>
  \<^verbatim>\<open>voteCount > 0 ? ((voteCounts[candidate.id] || 0) / voteCount) * 100 : 0\<close>: the
  quotient is rounded, then its product with 100.
\<close>

definition percentage :: "nat \<Rightarrow> nat \<Rightarrow> rat" where
  "percentage n voteCount =
     (if voteCount > 0
      then round_double (round_double (of_nat n / of_nat voteCount) * 100)
      else 0)"

text \<open>
  The distance that this rounding can put between the sum of the percentages and 100:
  each of the two roundings is off by at most one part in \<open>2 ^ 53\<close>.
\<close>

definition sum_tolerance :: rat where
  "sum_tolerance = 100 * (2 / 2 ^ 53 + 1 / 2 ^ 106)"

text \<open>
  \<^verbatim>\<open>candidatesData.map(...).sort((a, b) => b.votes - a.votes)\<close>: the sort of an array is
  stable, so rows with equal counts keep the order of \<^verbatim>\<open>candidatesData\<close>.
\<close>

definition resultsWithVotes :: "candidate list \<Rightarrow> uuid list \<Rightarrow> candidate_result list" where
  "resultsWithVotes candidatesData votesData =
     sort_key (\<lambda>r. - int (r_votes r))
       (map (\<lambda>candidate.
              \<lparr>r_candidate = candidate,
               r_votes = or_zero (voteCounts votesData (c_id candidate)),
               r_percentage =
                 percentage (or_zero (voteCounts votesData (c_id candidate))) (length votesData)\<rparr>)
          candidatesData)"

text \<open>
  \<^verbatim>\<open>loadResults\<close>. The page has no session check of its own: the statements run with
  whatever identity the visitor has, and each \<^verbatim>\<open>select\<close> returns what the policies
  let that identity read.
\<close>

definition loadResults :: "db \<Rightarrow> uuid option \<Rightarrow> uuid \<Rightarrow> results_page \<Rightarrow> results_page" where
  "loadResults d uid electionId page =
     (case election_by_id d uid electionId of
        None \<Rightarrow> page\<lparr>rp_navigated := Some ''/dashboard''\<rparr>
      | Some electionData \<Rightarrow>
          if \<not> truthy (e_results_published electionData)
          then page\<lparr>rp_navigated := Some ''/dashboard''\<rparr>
          else
            let candidatesData =
                  filter (\<lambda>c. c_election_id c = electionId) (candidates_select d uid);
                votesData =
                  map v_candidate_id
                    (filter (\<lambda>v. v_election_id v = electionId) (votes_select d uid))
            in page\<lparr>rp_election := Some electionData,
                     rp_totalVotes := length votesData,
                     rp_results := resultsWithVotes candidatesData votesData,
                     rp_loading := False\<rparr>)"

section \<open>The voting page\<close>

datatype toast = ToastError string | ToastSuccess string | ToastInfo string

text \<open>
  The component's state (\<^verbatim>\<open>useState\<close>), the toasts it has shown and the last
  \<^verbatim>\<open>navigate\<close> target (the one that follows a cast after two seconds included).
  \<open>vp_stream\<close> is \<^verbatim>\<open>MediaStream | null\<close>: \<open>Some live\<close> holds
  whether the tracks of the stream are still running.
\<close>

record vote_page =
  vp_election :: "election option"
  vp_candidates :: "candidate list"
  vp_selectedCandidate :: "uuid option"
  vp_showVerification :: bool
  vp_verifying :: bool
  vp_loading :: bool
  vp_hasVoted :: bool
  vp_stream :: "bool option"
  vp_toasts :: "toast list"
  vp_navigated :: "string option"

definition vote_initial :: vote_page where
  "vote_initial =
     \<lparr>vp_election = None, vp_candidates = [], vp_selectedCandidate = None,
      vp_showVerification = False, vp_verifying = False, vp_loading = True,
      vp_hasVoted = False, vp_stream = None, vp_toasts = [], vp_navigated = None\<rparr>"

text \<open>
  \<^verbatim>\<open>loadElection\<close>, run when the page is mounted. \<open>session\<close> is \<^verbatim>\<open>session.user.id\<close> of
  \<^verbatim>\<open>getSession()\<close>, \<open>None\<close> without a session.
\<close>

definition loadElection :: "db \<Rightarrow> uuid option \<Rightarrow> uuid \<Rightarrow> vote_page \<Rightarrow> vote_page" where
  "loadElection d session electionId page =
     (case session of
        None \<Rightarrow> page\<lparr>vp_navigated := Some ''/auth''\<rparr>
      | Some uid \<Rightarrow>
          (let electionData = election_by_id d (Some uid) electionId in
           if electionData = None \<or> map_option e_status electionData \<noteq> Some Active
           then page\<lparr>vp_toasts := vp_toasts page
                         @ [ToastError ''This election is not available for voting''],
                      vp_navigated := Some ''/dashboard''\<rparr>
           else
             let candidatesData =
                   filter (\<lambda>c. c_election_id c = electionId) (candidates_select d (Some uid));
                 voteData =
                   single_row
                     (filter (\<lambda>v. v_election_id v = electionId \<and> v_voter_id v = uid)
                        (votes_select d (Some uid)))
             in page\<lparr>vp_election := electionData,
                      vp_candidates := candidatesData,
                      vp_hasVoted := (if voteData \<noteq> None then True else vp_hasVoted page),
                      vp_loading := False\<rparr>))"

definition handleCastVote :: "vote_page \<Rightarrow> vote_page" where
  "handleCastVote page =
     (if vp_selectedCandidate page = None
      then page\<lparr>vp_toasts := vp_toasts page @ [ToastError ''Please select a candidate'']\<rparr>
      else page\<lparr>vp_showVerification := True\<rparr>)"

text \<open>\<^verbatim>\<open>startCamera\<close>; \<open>granted\<close> is whether \<^verbatim>\<open>getUserMedia\<close> resolves.\<close>

definition startCamera :: "bool \<Rightarrow> vote_page \<Rightarrow> vote_page" where
  "startCamera granted page =
     (if granted then page\<lparr>vp_stream := Some True\<rparr>
      else page\<lparr>vp_toasts := vp_toasts page @ [ToastError ''Failed to access camera'']\<rparr>)"

text \<open>
  What \<^verbatim>\<open>verifyAndSubmit\<close> throws: \<^verbatim>\<open>new Error("Not authenticated")\<close>, or the
  \<^verbatim>\<open>error\<close> object that the client returned for the failed insert.
\<close>

datatype thrown = JsError string | ClientError pg_error

text \<open>The message of a database error (the quotation marks of the server's text left out).\<close>

fun pg_message :: "pg_error \<Rightarrow> string" where
  "pg_message (NotNullViolation c) =
     ''null value in column '' @ c @ '' of relation votes violates not-null constraint''"
| "pg_message RlsViolation = ''new row violates row-level security policy for table votes''"
| "pg_message (UniqueViolation c) = ''duplicate key value violates unique constraint '' @ c"
| "pg_message (ForeignKeyViolation c) =
     ''insert or update on table votes violates foreign key constraint '' @ c"

text \<open>
  The \<^verbatim>\<open>catch\<close> block: \<^verbatim>\<open>if (error instanceof Error) { toast.error(error.message); }\<close>.
  The client library is not part of the sources, so whether the \<^verbatim>\<open>error\<close> object it
  returns is an instance of \<^verbatim>\<open>Error\<close> is the parameter \<open>clientErrorIsError\<close>. (The
  Supabase client returns the parsed JSON body of the error response, a plain object:
  \<open>False\<close>.)
\<close>

definition catch_error :: "bool \<Rightarrow> thrown \<Rightarrow> vote_page \<Rightarrow> vote_page" where
  "catch_error clientErrorIsError error page =
     (case error of
        JsError message \<Rightarrow> page\<lparr>vp_toasts := vp_toasts page @ [ToastError message]\<rparr>
      | ClientError e \<Rightarrow>
          if clientErrorIsError
          then page\<lparr>vp_toasts := vp_toasts page @ [ToastError (pg_message e)]\<rparr>
          else page)"

text \<open>
  \<^verbatim>\<open>verifyAndSubmit\<close>. \<open>now\<close> is the decimal text of \<^verbatim>\<open>Date.now()\<close> and \<open>rnd\<close> the
  text of \<^verbatim>\<open>Math.random().toString(36).substr(2, 9)\<close>. The simulated verification is
  \<^verbatim>\<open>await new Promise(resolve => setTimeout(resolve, 2000))\<close>: it has no outcome, so
  nothing of it appears here; \<open>d\<close> is the store when the insert arrives. The insert is
  sent once. \<^verbatim>\<open>finally\<close> resets \<open>verifying\<close> on every path. A \<^verbatim>\<open>selectedCandidate\<close>
  of \<^verbatim>\<open>null\<close> would be refused by \<^verbatim>\<open>candidate_id ... NOT NULL\<close>.
\<close>

definition verifyAndSubmit ::
  "bool \<Rightarrow> db \<Rightarrow> uuid option \<Rightarrow> uuid \<Rightarrow> string \<Rightarrow> string \<Rightarrow> vote_page \<Rightarrow> db \<times> vote_page" where
  "verifyAndSubmit clientErrorIsError d session electionId now rnd page =
     (case session of
        None \<Rightarrow>
          (d, (catch_error clientErrorIsError (JsError ''Not authenticated'') page)
                \<lparr>vp_verifying := False\<rparr>)
      | Some uid \<Rightarrow>
          (let voteReceipt = ''VR-'' @ now @ ''-'' @ rnd;
               inserted =
                 (case vp_selectedCandidate page of
                    None \<Rightarrow> Inl (NotNullViolation ''candidate_id'')
                  | Some selectedCandidate \<Rightarrow>
                      votes_insert d (Some uid)
                        \<lparr>v_election_id = electionId,
                         v_candidate_id = selectedCandidate,
                         v_voter_id = uid,
                         v_vote_receipt = voteReceipt,
                         v_face_verified = Some True\<rparr>)
           in case inserted of
                Inl error \<Rightarrow>
                  (d, (catch_error clientErrorIsError (ClientError error) page)
                        \<lparr>vp_verifying := False\<rparr>)
              | Inr d' \<Rightarrow>
                  (d', page\<lparr>vp_stream := map_option (\<lambda>live. False) (vp_stream page),
                             vp_toasts := vp_toasts page
                               @ [ToastSuccess (''Vote cast successfully! Receipt: '' @ voteReceipt)],
                             vp_showVerification := False,
                             vp_hasVoted := True,
                             vp_navigated := Some ''/dashboard'',
                             vp_verifying := False\<rparr>)))"

text \<open>
  What the voter can do on the page. While \<open>loading\<close> the page renders a spinner only;
  with \<open>hasVoted\<close> it renders "Vote Already Cast" and a link back. Otherwise it renders a
  card per candidate, the "Cast Vote" button once a candidate is selected, and the
  verification dialog when \<open>showVerification\<close>: "Start Verification" while there is no
  stream, "Verify & Submit Vote" (disabled while \<open>verifying\<close>) once there is one. An
  event whose control is not rendered changes nothing.
\<close>

datatype vote_event =
    ClickCandidate uuid
  | ClickCastVote
  | ClickStartVerification bool
  | ClickVerifySubmit "uuid option" string string
  | CloseDialog

definition rendered :: "vote_page \<Rightarrow> vote_event \<Rightarrow> bool" where
  "rendered page ev =
     (\<not> vp_loading page \<and> \<not> vp_hasVoted page \<and>
      (case ev of
         ClickCandidate c \<Rightarrow> c \<in> set (map c_id (vp_candidates page))
       | ClickCastVote \<Rightarrow> vp_selectedCandidate page \<noteq> None
       | ClickStartVerification granted \<Rightarrow> vp_showVerification page \<and> vp_stream page = None
       | ClickVerifySubmit session now rnd \<Rightarrow>
           vp_showVerification page \<and> vp_stream page \<noteq> None \<and> \<not> vp_verifying page
       | CloseDialog \<Rightarrow> vp_showVerification page))"

definition vote_step :: "bool \<Rightarrow> uuid \<Rightarrow> db \<times> vote_page \<Rightarrow> vote_event \<Rightarrow> db \<times> vote_page" where
  "vote_step clientErrorIsError electionId st ev =
     (let d = fst st; page = snd st in
      if \<not> rendered page ev then st
      else case ev of
          ClickCandidate c \<Rightarrow> (d, page\<lparr>vp_selectedCandidate := Some c\<rparr>)
        | ClickCastVote \<Rightarrow> (d, handleCastVote page)
        | ClickStartVerification granted \<Rightarrow> (d, startCamera granted page)
        | ClickVerifySubmit session now rnd \<Rightarrow>
            verifyAndSubmit clientErrorIsError d session electionId now rnd page
        | CloseDialog \<Rightarrow> (d, page\<lparr>vp_showVerification := False\<rparr>))"

definition vote_run ::
  "bool \<Rightarrow> uuid \<Rightarrow> db \<times> vote_page \<Rightarrow> vote_event list \<Rightarrow> db \<times> vote_page" where
  "vote_run clientErrorIsError electionId st evs =
     fold (\<lambda>ev st. vote_step clientErrorIsError electionId st ev) evs st"

text \<open>
  Cast attempts from any number of pages and sessions, in the order in which their
  inserts reach the table: the unique index decides inserts of one key one after
  another, so attempts that are concurrent for the voters are some interleaving for the
  store. An attempt is the state of \<^verbatim>\<open>verifyAndSubmit\<close>'s page and what its
  environment supplies.
\<close>

record attempt =
  a_session :: "uuid option"
  a_electionId :: uuid
  a_now :: string
  a_rnd :: string
  a_page :: vote_page

definition cast_attempts :: "bool \<Rightarrow> db \<Rightarrow> attempt list \<Rightarrow> db" where
  "cast_attempts clientErrorIsError d attempts =
     fold (\<lambda>a d. fst (verifyAndSubmit clientErrorIsError d (a_session a) (a_electionId a)
                         (a_now a) (a_rnd a) (a_page a)))
       attempts d"

section \<open>The dashboard\<close>

record dashboard_page =
  dp_profile :: "profile option"
  dp_elections :: "election list"
  dp_loading :: bool
  dp_toasts :: "toast list"
  dp_navigated :: "string option"

definition dashboard_initial :: dashboard_page where
  "dashboard_initial =
     \<lparr>dp_profile = None, dp_elections = [], dp_loading = True, dp_toasts = [],
      dp_navigated = None\<rparr>"

text \<open>
  \<^verbatim>\<open>initDashboard\<close>: \<^verbatim>\<open>if (!profileData?.face_registered)\<close> sends the voter to the face
  registration. (The \<^verbatim>\<open>order("start_time")\<close> of the election list is not modelled.)
\<close>

definition initDashboard :: "db \<Rightarrow> uuid option \<Rightarrow> dashboard_page \<Rightarrow> dashboard_page" where
  "initDashboard d session page =
     (case session of
        None \<Rightarrow> page\<lparr>dp_navigated := Some ''/auth''\<rparr>
      | Some uid \<Rightarrow>
          (let profileData =
                 single_row (filter (\<lambda>p. p_id p = uid) (profiles_select d (Some uid)))
           in if \<not> (case profileData of None \<Rightarrow> False
                                      | Some p \<Rightarrow> truthy (p_face_registered p))
              then page\<lparr>dp_profile := profileData,
                         dp_toasts := dp_toasts page
                           @ [ToastInfo ''Please register your face for voting''],
                         dp_navigated := Some ''/face-registration''\<rparr>
              else page\<lparr>dp_profile := profileData,
                         dp_elections :=
                           filter (\<lambda>e. e_status e = Active \<or> e_status e = Ended)
                             (elections_select d (Some uid)),
                         dp_loading := False\<rparr>))"

section \<open>Concrete stores\<close>

definition ballot :: "uuid \<Rightarrow> uuid \<Rightarrow> uuid \<Rightarrow> string \<Rightarrow> vote" where
  "ballot election_id candidate_id voter_id receipt =
     \<lparr>v_election_id = election_id, v_candidate_id = candidate_id, v_voter_id = voter_id,
      v_vote_receipt = receipt, v_face_verified = Some True\<rparr>"

definition registered :: "uuid \<Rightarrow> profile" where
  "registered uid = \<lparr>p_id = uid, p_face_registered = Some True\<rparr>"

text \<open>
  Elections 1 and 2 have ended and their results are published. The candidates of
  election 1 are 21, 22 and 23 (stored in the order 23, 21, 22); voters 101 to 110 have
  cast ten ballots for it, five for 21, three for 22 and two for 23. Election 2 has the
  candidates 31 and 32 and no ballot. User 100 is the administrator, user 120 a voter
  who has not voted.
\<close>

definition tally_db :: db where
  "tally_db =
     \<lparr>profiles = map registered [100, 101, 102, 103, 104, 105, 106, 107, 108, 109, 110, 120],
      user_roles = [\<lparr>ur_user_id = 100, ur_role = RoleAdmin\<rparr>],
      elections = [\<lparr>e_id = 1, e_status = Ended, e_results_published = Some True\<rparr>,
                   \<lparr>e_id = 2, e_status = Ended, e_results_published = Some True\<rparr>],
      candidates =
        [\<lparr>c_id = 23, c_election_id = 1, c_name = ''Chen'', c_party = ''Green''\<rparr>,
         \<lparr>c_id = 21, c_election_id = 1, c_name = ''Ada'', c_party = ''Blue''\<rparr>,
         \<lparr>c_id = 31, c_election_id = 2, c_name = ''Dee'', c_party = ''Blue''\<rparr>,
         \<lparr>c_id = 22, c_election_id = 1, c_name = ''Bo'', c_party = ''Red''\<rparr>,
         \<lparr>c_id = 32, c_election_id = 2, c_name = ''Eli'', c_party = ''Red''\<rparr>],
      votes =
        [ballot 1 22 101 ''VR-1-a'', ballot 1 21 102 ''VR-2-b'', ballot 1 23 103 ''VR-3-c'',
         ballot 1 21 104 ''VR-4-d'', ballot 1 21 105 ''VR-5-e'', ballot 1 22 106 ''VR-6-f'',
         ballot 1 23 107 ''VR-7-g'', ballot 1 21 108 ''VR-8-h'', ballot 1 22 109 ''VR-9-i'',
         ballot 1 21 110 ''VR-10-j'']\<rparr>"

text \<open>
  Two elections: election 1 (published) with candidates 21 and 22, election 2 with
  candidate 31. Voter 101 has voted for 21 in election 1. \<open>stray_ballot\<close> is voter 102's
  ballot for election 1 that names candidate 31 of election 2.
\<close>

definition stray_db :: db where
  "stray_db =
     \<lparr>profiles = map registered [100, 101, 102],
      user_roles = [\<lparr>ur_user_id = 100, ur_role = RoleAdmin\<rparr>],
      elections = [\<lparr>e_id = 1, e_status = Ended, e_results_published = Some True\<rparr>,
                   \<lparr>e_id = 2, e_status = Active, e_results_published = Some False\<rparr>],
      candidates =
        [\<lparr>c_id = 21, c_election_id = 1, c_name = ''Ada'', c_party = ''Blue''\<rparr>,
         \<lparr>c_id = 22, c_election_id = 1, c_name = ''Bo'', c_party = ''Red''\<rparr>,
         \<lparr>c_id = 31, c_election_id = 2, c_name = ''Dee'', c_party = ''Blue''\<rparr>],
      votes = [ballot 1 21 101 ''VR-1-a'']\<rparr>"

definition stray_ballot :: vote where
  "stray_ballot = ballot 1 31 102 ''VR-2-b''"

text \<open>
  Election 1 has ended and its results are published; its candidates 21, 22 and 23 have
  one ballot each, of the voters 101, 102 and 103. User 100 is the administrator.
\<close>

definition thirds_db :: db where
  "thirds_db =
     \<lparr>profiles = map registered [100, 101, 102, 103],
      user_roles = [\<lparr>ur_user_id = 100, ur_role = RoleAdmin\<rparr>],
      elections = [\<lparr>e_id = 1, e_status = Ended, e_results_published = Some True\<rparr>],
      candidates =
        [\<lparr>c_id = 21, c_election_id = 1, c_name = ''Ada'', c_party = ''Blue''\<rparr>,
         \<lparr>c_id = 22, c_election_id = 1, c_name = ''Bo'', c_party = ''Red''\<rparr>,
         \<lparr>c_id = 23, c_election_id = 1, c_name = ''Chen'', c_party = ''Green''\<rparr>],
      votes =
        [ballot 1 21 101 ''VR-1-a'', ballot 1 22 102 ''VR-2-b'', ballot 1 23 103 ''VR-3-c'']\<rparr>"

text \<open>
  Election 1 is active, with candidates 21 and 22 and no ballot yet. User 100 is the
  administrator; voter 101 has registered a face, voter 105 has not.
\<close>

definition poll_db :: db where
  "poll_db =
     \<lparr>profiles = [registered 100, registered 101,
                  \<lparr>p_id = 105, p_face_registered = Some False\<rparr>],
      user_roles = [\<lparr>ur_user_id = 100, ur_role = RoleAdmin\<rparr>],
      elections = [\<lparr>e_id = 1, e_status = Active, e_results_published = Some False\<rparr>],
      candidates =
        [\<lparr>c_id = 21, c_election_id = 1, c_name = ''Ada'', c_party = ''Blue''\<rparr>,
         \<lparr>c_id = 22, c_election_id = 1, c_name = ''Bo'', c_party = ''Red''\<rparr>],
      votes = []\<rparr>"

text \<open>
  The page of a voter who has opened \<^verbatim>\<open>/vote/1\<close> on \<open>poll_db\<close>, selected candidate 21,
  pressed "Cast Vote" and started the camera.
\<close>

definition ready_page :: "uuid \<Rightarrow> vote_page" where
  "ready_page uid =
     snd (vote_run False 1 (poll_db, loadElection poll_db (Some uid) 1 vote_initial)
            [ClickCandidate 21, ClickCastVote, ClickStartVerification True])"

text \<open>The store after voter 101 has submitted the ballot from that page.\<close>

definition voted_db :: db where
  "voted_db =
     fst (verifyAndSubmit False poll_db (Some 101) 1 ''1700000000000'' ''k3j9x2m1q''
            (ready_page 101))"

text \<open>The store after the administrator has paused election 1 of \<open>poll_db\<close>.\<close>

definition paused_db :: db where
  "paused_db = updateElectionStatus poll_db (Some 100) 1 Paused"

section \<open>Facts about the tally\<close>

lemma voteCounts_fold:
  "or_zero (fold (\<lambda>k acc. acc(k \<mapsto> or_zero (acc k) + 1)) ks m c)
     = or_zero (m c) + length (filter (\<lambda>k. k = c) ks)"
  by (induction ks arbitrary: m) auto

lemma voteCounts_count:
  "or_zero (voteCounts ks c) = length (filter (\<lambda>k. k = c) ks)"
  unfolding voteCounts_def using voteCounts_fold [of ks Map.empty c] by simp

lemma single_row_Some: "single_row xs = Some x \<longleftrightarrow> xs = [x]"
  by (cases xs rule: single_row.cases) auto

lemma filter_pkey:
  "distinct (map f xs) \<Longrightarrow> x \<in> set xs \<Longrightarrow> filter (\<lambda>y. f y = f x) xs = [x]"
proof (induction xs)
  case Nil
  then show ?case by simp
next
  case (Cons a xs)
  show ?case
  proof (cases "a = x")
    case True
    with Cons.prems have "\<forall>y\<in>set xs. f y \<noteq> f x" by (auto simp: image_iff)
    then have "filter (\<lambda>y. f y = f x) xs = []" by (simp add: filter_empty_conv)
    with True show ?thesis by simp
  next
    case False
    with Cons.prems have "x \<in> set xs" "f a \<noteq> f x" "distinct (map f xs)" by (auto simp: image_iff)
    with Cons.IH show ?thesis by simp
  qed
qed

lemma election_by_id_in:
  "election_by_id d uid eid = Some e \<Longrightarrow> e \<in> set (elections d) \<and> e_id e = eid"
proof -
  assume "election_by_id d uid eid = Some e"
  then have "filter (\<lambda>e. e_id e = eid) (elections_select d uid) = [e]"
    by (simp add: election_by_id_def single_row_Some)
  then have "e \<in> set (filter (\<lambda>e. e_id e = eid) (elections_select d uid))" by simp
  then show ?thesis by (simp add: elections_select_def)
qed

lemma election_by_id_pkey:
  assumes "elections_pkey d" "e \<in> set (elections d)"
  shows "election_by_id d uid (e_id e) = None \<or> election_by_id d uid (e_id e) = Some e"
proof (cases "election_by_id d uid (e_id e)")
  case None
  then show ?thesis by simp
next
  case (Some e')
  then have "e' \<in> set (elections d)" "e_id e' = e_id e" using election_by_id_in by blast+
  with assms have "e' = e" by (auto simp: elections_pkey_def distinct_map inj_on_def)
  with Some show ?thesis by simp
qed

lemma loadResults_published:
  assumes "election_by_id d uid electionId = Some e" "e_results_published e = Some True"
  shows "loadResults d uid electionId page =
           page\<lparr>rp_election := Some e,
                rp_totalVotes := length (filter (\<lambda>v. v_election_id v = electionId) (votes_select d uid)),
                rp_results := resultsWithVotes
                   (filter (\<lambda>c. c_election_id c = electionId) (candidates d))
                   (map v_candidate_id (filter (\<lambda>v. v_election_id v = electionId) (votes_select d uid))),
                rp_loading := False\<rparr>"
  using assms by (simp add: loadResults_def truthy_def candidates_select_def Let_def)

lemma sort_key_const:
  "(\<forall>x\<in>set xs. f x = k) \<Longrightarrow> sort_key f xs = xs"
proof (induction xs)
  case Nil
  then show ?case by simp
next
  case (Cons a xs)
  then have "sort_key f xs = xs" by simp
  moreover have "insort_key f a xs = a # xs" using Cons.prems by (cases xs) auto
  ultimately show ?case by simp
qed

lemma resultsWithVotes_no_votes:
  "resultsWithVotes cs [] =
     map (\<lambda>c. \<lparr>r_candidate = c, r_votes = 0, r_percentage = 0\<rparr>) cs"
proof -
  have "sort_key (\<lambda>r. - int (r_votes r))
          (map (\<lambda>c. \<lparr>r_candidate = c, r_votes = 0, r_percentage = 0\<rparr>) cs)
        = map (\<lambda>c. \<lparr>r_candidate = c, r_votes = 0, r_percentage = 0\<rparr>) cs"
    by (rule sort_key_const [where k = 0]) auto
  then show ?thesis
    by (simp add: resultsWithVotes_def voteCounts_def percentage_def)
qed


lemma resultsWithVotes_mset:
  "mset (map r_candidate (resultsWithVotes cs ks)) = mset cs"
proof -
  have "mset (map r_candidate (resultsWithVotes cs ks))
          = image_mset r_candidate (mset (resultsWithVotes cs ks))" by simp
  also have "\<dots> = mset cs"
    unfolding resultsWithVotes_def mset_sort by (simp add: image_mset.compositionality comp_def)
  finally show ?thesis .
qed

lemma resultsWithVotes_row:
  assumes "r \<in> set (resultsWithVotes cs ks)"
  shows "r_votes r = length (filter (\<lambda>k. k = c_id (r_candidate r)) ks)
         \<and> r_percentage r = percentage (r_votes r) (length ks)
         \<and> r_candidate r \<in> set cs"
  using assms by (auto simp: resultsWithVotes_def voteCounts_count)

lemma resultsWithVotes_sorted:
  "sorted_wrt (\<lambda>a b. r_votes b \<le> r_votes a) (resultsWithVotes cs ks)"
proof -
  have "sorted (map (\<lambda>r. - int (r_votes r)) (resultsWithVotes cs ks))"
    unfolding resultsWithVotes_def by (rule sorted_sort_key)
  then show ?thesis by (simp add: sorted_map)
qed

lemma length_filter_disj:
  "(\<forall>k\<in>set ks. \<not> (P k \<and> Q k)) \<Longrightarrow>
     length (filter (\<lambda>k. P k \<or> Q k) ks) = length (filter P ks) + length (filter Q ks)"
  by (induction ks) auto

lemma count_by_key:
  "distinct (map f cs) \<Longrightarrow>
     (\<Sum>c\<leftarrow>cs. length (filter (\<lambda>k. k = f c) ks)) = length (filter (\<lambda>k. k \<in> f ` set cs) ks)"
proof (induction cs)
  case Nil
  then show ?case by simp
next
  case (Cons a cs)
  then have ih: "(\<Sum>c\<leftarrow>cs. length (filter (\<lambda>k. k = f c) ks))
                   = length (filter (\<lambda>k. k \<in> f ` set cs) ks)"
    and fresh: "f a \<notin> f ` set cs" by auto
  have "length (filter (\<lambda>k. k = f a \<or> k \<in> f ` set cs) ks)
          = length (filter (\<lambda>k. k = f a) ks) + length (filter (\<lambda>k. k \<in> f ` set cs) ks)"
    by (rule length_filter_disj) (use fresh in auto)
  with ih show ?case by simp
qed

lemma sum_list_insort_key:
  "sum_list (map g (insort_key f x xs)) = g x + sum_list (map (g :: 'a \<Rightarrow> rat) xs)"
  by (induction xs) auto

lemma sum_list_sort_key:
  "sum_list (map g (sort_key f xs)) = sum_list (map (g :: 'a \<Rightarrow> rat) xs)"
  by (induction xs) (auto simp: sum_list_insort_key)

section \<open>Facts about the rounding\<close>

lemma of_int_bitlen_lower:
  assumes "0 < p"
  shows "(2::rat) powi (bitlen p - 1) \<le> of_int p"
proof -
  from bitlen_bounds [OF assms] have "2 ^ nat (bitlen p - 1) \<le> p" by simp
  then have "(of_int (2 ^ nat (bitlen p - 1)) :: rat) \<le> of_int p" by (simp only: of_int_le_iff)
  moreover have "0 \<le> bitlen p - 1"
    using assms bitlen_eq_zero_iff [of p] bitlen_nonneg [of p] by linarith
  ultimately show ?thesis by (simp add: power_int_nonneg_exp)
qed

lemma of_int_bitlen_upper:
  assumes "0 < p"
  shows "of_int p < (2::rat) powi (bitlen p)"
proof -
  from bitlen_bounds [OF assms] have "p < 2 ^ nat (bitlen p)" by simp
  then have "(of_int p :: rat) < of_int (2 ^ nat (bitlen p))" by (simp only: of_int_less_iff)
  then show ?thesis using bitlen_nonneg [of p] by (simp add: power_int_nonneg_exp)
qed

lemma expo_bounds:
  assumes "0 < x"
  shows "2 powi (expo x) \<le> x \<and> x < 2 powi (expo x + 1)"
proof -
  obtain p q where pq: "quotient_of x = (p, q)" by (cases "quotient_of x")
  then have q: "0 < q" and x: "x = of_int p / of_int q"
    using quotient_of_denom_pos quotient_of_div by blast+
  from assms x q have p: "0 < p" by (simp add: zero_less_divide_iff)
  let ?d = "bitlen p - bitlen q"
  have qr: "(0::rat) < of_int q" using q by simp
  have low: "(2::rat) powi (?d - 1) \<le> x"
  proof -
    have "(2::rat) powi (?d - 1) = 2 powi (bitlen p - 1) / 2 powi (bitlen q)"
      by (simp add: power_int_diff)
    also have "\<dots> \<le> of_int p / 2 powi (bitlen q)"
      using of_int_bitlen_lower [OF p] by (simp add: divide_right_mono)
    also have "\<dots> \<le> of_int p / of_int q"
      using of_int_bitlen_upper [OF q] p qr by (simp add: frac_le)
    finally show ?thesis by (simp add: x)
  qed
  have up: "x < (2::rat) powi (?d + 1)"
  proof -
    have "x = of_int p / of_int q" by (rule x)
    also have "\<dots> < 2 powi (bitlen p) / of_int q"
      using of_int_bitlen_upper [OF p] qr by (simp add: divide_strict_right_mono)
    also have "\<dots> \<le> 2 powi (bitlen p) / 2 powi (bitlen q - 1)"
      using of_int_bitlen_lower [OF q] by (simp add: frac_le)
    also have "\<dots> = 2 powi (?d + 1)"
    proof -
      have e: "bitlen p - (bitlen q - 1) = ?d + 1" by simp
      have "(2::rat) powi (bitlen p) / 2 powi (bitlen q - 1)
          = 2 powi (bitlen p - (bitlen q - 1))"
        by (rule power_int_diff [symmetric]) simp
      then show ?thesis unfolding e .
    qed
    finally show ?thesis .
  qed
  show ?thesis
  proof (cases "(2::rat) powi ?d \<le> x")
    case True
    then have "expo x = ?d" by (simp add: expo_def pq)
    with True up show ?thesis by simp
  next
    case False
    then have "expo x = ?d - 1" by (simp add: expo_def pq)
    with False low show ?thesis by simp
  qed
qed

lemma round_ties_even_error:
  "\<bar>of_int (round_ties_even q) - q\<bar> \<le> 1 / 2"
proof -
  have "of_int \<lfloor>q\<rfloor> \<le> q" "q < of_int \<lfloor>q\<rfloor> + 1" by linarith+
  then show ?thesis by (auto simp: round_ties_even_def Let_def)
qed

lemma round_double_error:
  assumes "0 < x"
  shows "\<bar>round_double x - x\<bar> \<le> x / 2 ^ 53"
proof -
  let ?ulp = "(2::rat) powi (expo x - 52)"
  have ulp: "0 < ?ulp" by simp
  have rd: "round_double x = of_int (round_ties_even (x / ?ulp)) * ?ulp"
    using assms by (simp add: round_double_def Let_def)
  have "\<bar>round_double x - x\<bar> = \<bar>of_int (round_ties_even (x / ?ulp)) - x / ?ulp\<bar> * ?ulp"
  proof -
    have "round_double x - x = (of_int (round_ties_even (x / ?ulp)) - x / ?ulp) * ?ulp"
      using ulp by (simp add: rd field_simps)
    then show ?thesis using ulp by (simp add: abs_mult)
  qed
  also have "\<dots> \<le> (1 / 2) * ?ulp"
    using round_ties_even_error [of "x / ?ulp"] ulp by (intro mult_right_mono) simp_all
  also have "\<dots> = 2 powi (expo x) / 2 ^ 53"
  proof -
    have "?ulp = 2 powi (expo x) / 2 powi 52" by (simp add: power_int_diff)
    then show ?thesis by simp
  qed
  also have "\<dots> \<le> x / 2 ^ 53"
    using expo_bounds [OF assms] by (simp add: divide_right_mono)
  finally show ?thesis .
qed

lemma round_double_nonneg:
  "0 \<le> x \<Longrightarrow> 0 \<le> round_double x"
proof -
  assume "0 \<le> x"
  have "0 \<le> round_ties_even q" if "0 \<le> q" for q :: rat
  proof -
    from that have "0 \<le> \<lfloor>q\<rfloor>" by simp
    then show ?thesis by (auto simp: round_ties_even_def Let_def)
  qed
  then show ?thesis using \<open>0 \<le> x\<close>
    by (auto simp: round_double_def Let_def sgn_if intro!: mult_nonneg_nonneg)
qed

lemma percentage_zero: "percentage 0 N = 0"
  by (simp add: percentage_def round_double_def)

lemma percentage_error:
  assumes "0 < N"
  shows "\<bar>percentage n N - 100 * of_nat n / of_nat N\<bar>
           \<le> (100 * of_nat n / of_nat N) * (2 / 2 ^ 53 + 1 / 2 ^ 106)"
proof (cases "n = 0")
  case True
  then show ?thesis by (simp add: percentage_zero)
next
  case False
  define x :: rat where "x = of_nat n / of_nat N"
  define u :: rat where "u = 1 / 2 ^ 53"
  define q where "q = round_double x"
  define p where "p = round_double (q * 100)"
  have x: "0 < x" using False assms by (simp add: x_def)
  have u: "0 < u" "u < 1" by (simp_all add: u_def)
  have q1: "\<bar>q - x\<bar> \<le> x * u"
    using round_double_error [OF x] by (simp add: q_def u_def)
  have "x * (1 - u) \<le> q" using q1 by (simp add: algebra_simps abs_le_iff)
  moreover have "0 < x * (1 - u)" using x u by simp
  ultimately have q: "0 < q" by linarith
  have qle: "q \<le> x * (1 + u)" using q1 by (simp add: algebra_simps abs_le_iff)
  have "0 < q * 100" using q by simp
  then have p1: "\<bar>p - q * 100\<bar> \<le> q * 100 * u"
    using round_double_error [of "q * 100"] by (simp add: p_def u_def)
  have "q * 100 * u \<le> x * (1 + u) * 100 * u"
    using qle u by (simp add: mult_right_mono)
  with p1 have p2: "\<bar>p - q * 100\<bar> \<le> x * (1 + u) * 100 * u" by (rule order_trans)
  have "\<bar>p - 100 * x\<bar> = \<bar>(p - q * 100) + 100 * (q - x)\<bar>" by (simp add: algebra_simps)
  also have "\<dots> \<le> \<bar>p - q * 100\<bar> + \<bar>100 * (q - x)\<bar>" by (rule abs_triangle_ineq)
  also have "\<dots> = \<bar>p - q * 100\<bar> + 100 * \<bar>q - x\<bar>" by (simp only: abs_mult abs_numeral)
  also have "\<dots> \<le> x * (1 + u) * 100 * u + 100 * (x * u)"
  proof (rule add_mono)
    show "\<bar>p - q * 100\<bar> \<le> x * (1 + u) * 100 * u" by (rule p2)
    show "100 * \<bar>q - x\<bar> \<le> 100 * (x * u)" using q1 by simp
  qed
  also have "\<dots> = (100 * x) * (2 * u + u * u)" by (simp add: algebra_simps)
  finally have "\<bar>p - 100 * x\<bar> \<le> (100 * x) * (2 * u + u * u)" .
  moreover have "percentage n N = p"
    using assms by (simp add: percentage_def p_def q_def x_def)
  moreover have "2 * u + u * u = 2 / 2 ^ 53 + 1 / 2 ^ 106" by (simp add: u_def)
  ultimately show ?thesis by (simp add: x_def)
qed

lemma sum_list_error:
  fixes f g :: "'a \<Rightarrow> rat"
  assumes "\<forall>x\<in>set xs. \<bar>f x - g x\<bar> \<le> g x * eps"
  shows "\<bar>sum_list (map f xs) - sum_list (map g xs)\<bar> \<le> sum_list (map g xs) * eps"
  using assms
proof (induction xs)
  case Nil
  then show ?case by simp
next
  case (Cons a xs)
  then have "\<bar>f a - g a\<bar> \<le> g a * eps"
    and "\<bar>sum_list (map f xs) - sum_list (map g xs)\<bar> \<le> sum_list (map g xs) * eps"
    by simp_all
  then show ?case by (simp add: distrib_right)
qed

lemma exact_shares_sum:
  "(\<Sum>c\<leftarrow>cs. 100 * of_nat (n c) / of_nat N) = (100 * of_nat (\<Sum>c\<leftarrow>cs. n c) / of_nat N :: rat)"
  by (induction cs) (simp_all add: add_divide_distrib distrib_left)

text \<open>
  When every ballot read names one of the candidates, the percentages of the rows sum to
  100 up to the rounding.
\<close>

lemma resultsWithVotes_sum:
  assumes "distinct (map c_id cs)" and "ks \<noteq> []" and "\<forall>k\<in>set ks. k \<in> c_id ` set cs"
  shows "\<bar>sum_list (map r_percentage (resultsWithVotes cs ks)) - 100\<bar> \<le> sum_tolerance"
proof -
  let ?n = "\<lambda>c. length (filter (\<lambda>k. k = c_id c) ks)"
  let ?N = "length ks"
  let ?row = "\<lambda>c. \<lparr>r_candidate = c, r_votes = or_zero (voteCounts ks (c_id c)),
                   r_percentage = percentage (or_zero (voteCounts ks (c_id c))) (length ks)\<rparr>"
  have N: "0 < ?N" using assms(2) by simp
  have "sum_list (map r_percentage (resultsWithVotes cs ks))
          = sum_list (map r_percentage (map ?row cs))"
    unfolding resultsWithVotes_def by (rule sum_list_sort_key)
  also have "\<dots> = (\<Sum>c\<leftarrow>cs. percentage (?n c) ?N)"
    by (simp add: comp_def voteCounts_count)
  finally have rows: "sum_list (map r_percentage (resultsWithVotes cs ks))
          = (\<Sum>c\<leftarrow>cs. percentage (?n c) ?N)" .
  have "filter (\<lambda>k. k \<in> c_id ` set cs) ks = ks"
    using assms(3) by (simp only: filter_id_conv)
  then have "(\<Sum>c\<leftarrow>cs. ?n c) = ?N"
    using count_by_key [OF assms(1), of ks] by simp
  then have exact: "(\<Sum>c\<leftarrow>cs. 100 * of_nat (?n c) / of_nat ?N) = (100 :: rat)"
    using N by (simp add: exact_shares_sum)
  have "\<bar>(\<Sum>c\<leftarrow>cs. percentage (?n c) ?N) - (\<Sum>c\<leftarrow>cs. 100 * of_nat (?n c) / of_nat ?N)\<bar>
          \<le> (\<Sum>c\<leftarrow>cs. 100 * of_nat (?n c) / of_nat ?N) * (2 / 2 ^ 53 + 1 / 2 ^ 106)"
    by (rule sum_list_error) (use percentage_error [OF N] in blast)
  then show ?thesis unfolding rows exact by (simp add: sum_tolerance_def)
qed

text \<open>What \<open>loadResults\<close> makes of the rows that its queries return.\<close>

lemma tally_of_rows_read:
  assumes "election_by_id d uid electionId = Some e"
    and "e_results_published e = Some True"
  shows "(let page = loadResults d uid electionId results_initial;
              read = filter (\<lambda>v. v_election_id v = electionId) (votes_select d uid)
          in mset (map r_candidate (rp_results page))
               = mset (filter (\<lambda>c. c_election_id c = electionId) (candidates d))
           \<and> (\<forall>r\<in>set (rp_results page).
                 r_votes r
                   = length (filter (\<lambda>v. v_candidate_id v = c_id (r_candidate r)) read)
               \<and> r_percentage r = percentage (r_votes r) (length read))
           \<and> sorted_wrt (\<lambda>a b. r_votes a \<ge> r_votes b) (rp_results page)
           \<and> rp_totalVotes page = length read)"
proof -
  let ?read = "filter (\<lambda>v. v_election_id v = electionId) (votes_select d uid)"
  let ?cs = "filter (\<lambda>c. c_election_id c = electionId) (candidates d)"
  let ?rs = "resultsWithVotes ?cs (map v_candidate_id ?read)"
  let ?page = "loadResults d uid electionId results_initial"
  have page: "?page =
      results_initial\<lparr>rp_election := Some e, rp_totalVotes := length ?read,
        rp_results := ?rs, rp_loading := False\<rparr>"
    using loadResults_published [OF assms, of results_initial] by simp
  have res: "rp_results ?page = ?rs" and tot: "rp_totalVotes ?page = length ?read"
    by (simp_all add: page)
  have rows: "r_votes r = length (filter (\<lambda>v. v_candidate_id v = c_id (r_candidate r)) ?read)
       \<and> r_percentage r = percentage (r_votes r) (length ?read)"
    if "r \<in> set ?rs" for r
  proof -
    from that have "r_votes r
          = length (filter (\<lambda>k. k = c_id (r_candidate r)) (map v_candidate_id ?read))"
      and "r_percentage r = percentage (r_votes r) (length (map v_candidate_id ?read))"
      using resultsWithVotes_row by blast+
    then show ?thesis by (simp add: filter_map comp_def)
  qed
  have c1: "mset (map r_candidate (rp_results ?page)) = mset ?cs"
    unfolding res by (rule resultsWithVotes_mset)
  have c2: "\<forall>r\<in>set (rp_results ?page).
      r_votes r = length (filter (\<lambda>v. v_candidate_id v = c_id (r_candidate r)) ?read)
       \<and> r_percentage r = percentage (r_votes r) (length ?read)"
    unfolding res using rows by blast
  have c3: "sorted_wrt (\<lambda>a b. r_votes a \<ge> r_votes b) (rp_results ?page)"
    unfolding res by (rule resultsWithVotes_sorted)
  show ?thesis unfolding Let_def using c1 c2 c3 tot by blast
qed

section \<open>Claims about the results page\<close>

text \<open>
  Claim C4. For every election whose results-published flag is not true, \<open>loadResults\<close>
  returns no tally, whatever the election's status and whoever asks: it only navigates
  to the dashboard, so the page keeps its empty result list, its total of 0 and its
  loading state. The store's elections are taken with their primary key (distinct
  ids). Conversely the page leaves its loading state (a tally is produced) only for an
  election whose flag is true.
\<close>

theorem results_withheld_unless_published:
  assumes "elections_pkey d" and "e \<in> set (elections d)"
    and "e_results_published e \<noteq> Some True"
  shows "loadResults d uid (e_id e) page = page\<lparr>rp_navigated := Some ''/dashboard''\<rparr>
       \<and> rp_results (loadResults d uid (e_id e) results_initial) = []
       \<and> rp_totalVotes (loadResults d uid (e_id e) results_initial) = 0
       \<and> rp_loading (loadResults d uid (e_id e) results_initial)
       \<and> (\<not> rp_loading (loadResults d uid electionId results_initial) \<longrightarrow>
            (\<exists>x\<in>set (elections d). e_id x = electionId \<and> e_results_published x = Some True))"
proof -
  have "election_by_id d uid (e_id e) = None \<or> election_by_id d uid (e_id e) = Some e"
    using assms(1,2) by (rule election_by_id_pkey)
  then have withheld:
    "loadResults d uid (e_id e) pg = pg\<lparr>rp_navigated := Some ''/dashboard''\<rparr>" for pg
    using assms(3) by (auto simp: loadResults_def truthy_def)
  have only: "\<exists>x\<in>set (elections d). e_id x = electionId \<and> e_results_published x = Some True"
    if l: "\<not> rp_loading (loadResults d uid electionId results_initial)"
  proof (cases "election_by_id d uid electionId")
    case None
    with l show ?thesis by (simp add: loadResults_def results_initial_def)
  next
    case (Some x)
    with l have "truthy (e_results_published x)"
      by (auto simp: loadResults_def results_initial_def split: if_splits)
    moreover from Some have "x \<in> set (elections d)" "e_id x = electionId"
      using election_by_id_in by blast+
    ultimately show ?thesis by (auto simp: truthy_def)
  qed
  show ?thesis using only by (simp add: withheld results_initial_def)
qed

theorem results_withheld_unless_published_witness:
  "elections_pkey stray_db
   \<and> \<lparr>e_id = 2, e_status = Active, e_results_published = Some False\<rparr> \<in> set (elections stray_db)
   \<and> loadResults stray_db (Some 100) 2 results_initial
       = results_initial\<lparr>rp_navigated := Some ''/dashboard''\<rparr>
   \<and> rp_results (loadResults stray_db (Some 100) 2 results_initial) = []
   \<and> \<not> rp_loading (loadResults stray_db (Some 100) 1 results_initial)
   \<and> (\<exists>x\<in>set (elections stray_db). e_id x = 1 \<and> e_results_published x = Some True)"
proof -
  let ?e = "\<lparr>e_id = 2, e_status = Active, e_results_published = Some False\<rparr>"
  have pk: "elections_pkey stray_db" by (simp add: elections_pkey_def stray_db_def)
  have mem: "?e \<in> set (elections stray_db)" by (simp add: stray_db_def)
  have unpub: "e_results_published ?e \<noteq> Some True" by simp
  have run: "\<not> rp_loading (loadResults stray_db (Some 100) 1 results_initial)"
    by (simp add: loadResults_def election_by_id_def elections_select_def stray_db_def
        has_role_def truthy_def results_initial_def)
  from results_withheld_unless_published [OF pk mem unpub, of "Some 100" results_initial 1]
  show ?thesis using pk mem run by (simp add: results_initial_def)
qed

text \<open>
  Claim C6. For every published election (one the viewer's query returns, with the
  flag true) that has no ballot in the store, \<open>loadResults\<close> completes, reports a total
  of 0 and returns one row per candidate of the election, each with 0 votes and a
  percentage of 0. The quotient is behind the guard \<^verbatim>\<open>voteCount > 0\<close>, so it is never
  taken with a zero divisor.
\<close>

theorem zero_ballots_zero_percent:
  assumes "election_by_id d uid electionId = Some e"
    and "e_results_published e = Some True"
    and "\<forall>v\<in>set (votes d). v_election_id v \<noteq> electionId"
  shows "\<not> rp_loading (loadResults d uid electionId results_initial)
       \<and> rp_totalVotes (loadResults d uid electionId results_initial) = 0
       \<and> rp_results (loadResults d uid electionId results_initial)
           = map (\<lambda>c. \<lparr>r_candidate = c, r_votes = 0, r_percentage = 0\<rparr>)
               (filter (\<lambda>c. c_election_id c = electionId) (candidates d))
       \<and> (\<forall>r\<in>set (rp_results (loadResults d uid electionId results_initial)).
             r_percentage r = 0)"
proof -
  have "filter (\<lambda>v. v_election_id v = electionId) (votes_select d uid) = []"
    using assms(3) by (auto simp: votes_select_def filter_empty_conv)
  then have "loadResults d uid electionId results_initial =
      results_initial\<lparr>rp_election := Some e, rp_totalVotes := 0,
        rp_results := map (\<lambda>c. \<lparr>r_candidate = c, r_votes = 0, r_percentage = 0\<rparr>)
               (filter (\<lambda>c. c_election_id c = electionId) (candidates d)),
        rp_loading := False\<rparr>"
    using loadResults_published [OF assms(1,2), of results_initial]
    by (simp add: resultsWithVotes_no_votes)
  then show ?thesis by auto
qed

theorem zero_ballots_zero_percent_witness:
  "election_by_id tally_db (Some 120) 2
     = Some \<lparr>e_id = 2, e_status = Ended, e_results_published = Some True\<rparr>
   \<and> length (votes tally_db) = 10
   \<and> \<not> rp_loading (loadResults tally_db (Some 120) 2 results_initial)
   \<and> rp_totalVotes (loadResults tally_db (Some 120) 2 results_initial) = 0
   \<and> map (\<lambda>r. (c_id (r_candidate r), r_votes r, r_percentage r))
        (rp_results (loadResults tally_db (Some 120) 2 results_initial))
       = [(31, 0, 0), (32, 0, 0)]"
proof -
  let ?e = "\<lparr>e_id = 2, e_status = Ended, e_results_published = Some True\<rparr>"
  have vis: "election_by_id tally_db (Some 120) 2 = Some ?e"
    by (simp add: election_by_id_def elections_select_def tally_db_def)
  have pub: "e_results_published ?e = Some True" by simp
  have none: "\<forall>v\<in>set (votes tally_db). v_election_id v \<noteq> 2"
    by (simp add: tally_db_def ballot_def)
  have n: "length (votes tally_db) = 10" by (simp add: tally_db_def)
  from zero_ballots_zero_percent [OF vis pub none]
  show ?thesis using vis n by (simp add: tally_db_def)
qed

lemma tally_db_election:
  "election_by_id tally_db uid 1
     = Some \<lparr>e_id = 1, e_status = Ended, e_results_published = Some True\<rparr>"
  by (simp add: election_by_id_def elections_select_def tally_db_def)

text \<open>
  Claim C5, evaluated on the code. The store \<open>tally_db\<close> holds ten ballots of the
  published election 1, split 5/3/2 over the candidates 21, 22 and 23. Voter 103, who
  voted for 23 and is no administrator, is shown a total of one vote and candidate 23
  first with one vote and 100 percent, the others with none: the query for the ballots
  returns the voter's own ballot only. The administrator is shown 50, 30 and 20 percent
  in that order, the candidate with five votes first.
\<close>

theorem tally_depends_on_viewer:
  "map (\<lambda>c. length (filter (\<lambda>v. v_election_id v = 1 \<and> v_candidate_id v = c) (votes tally_db)))
       [21, 22, 23] = [5, 3, 2]
   \<and> \<not> has_role tally_db (Some 103) RoleAdmin
   \<and> rp_totalVotes (loadResults tally_db (Some 103) 1 results_initial) = 1
   \<and> map (\<lambda>r. (c_id (r_candidate r), r_votes r, r_percentage r))
        (rp_results (loadResults tally_db (Some 103) 1 results_initial))
       = [(23, 1, 100), (21, 0, 0), (22, 0, 0)]
   \<and> rp_totalVotes (loadResults tally_db (Some 100) 1 results_initial) = 10
   \<and> map (\<lambda>r. (c_id (r_candidate r), r_votes r, r_percentage r))
        (rp_results (loadResults tally_db (Some 100) 1 results_initial))
       = [(21, 5, 50), (22, 3, 30), (23, 2, 20)]"
  by code_simp

text \<open>
  Claim C7, as stated, fails on a store that the claim counts in. The store accepts
  voter 102's ballot for election 1 that names candidate 31 of election 2 (the insert
  checks that the candidate exists, not that it belongs to the election). The
  administrator, who reads every ballot, is then shown a total of two votes and the
  percentages 50 and 0 for the two candidates of election 1: their sum is 50.
\<close>

theorem percentages_do_not_sum_to_100:
  "votes_insert stray_db (Some 102) stray_ballot
     = Inr (stray_db\<lparr>votes := votes stray_db @ [stray_ballot]\<rparr>)
   \<and> votes_select (stray_db\<lparr>votes := votes stray_db @ [stray_ballot]\<rparr>) (Some 100)
       = votes stray_db @ [stray_ballot]
   \<and> rp_totalVotes (loadResults (stray_db\<lparr>votes := votes stray_db @ [stray_ballot]\<rparr>)
        (Some 100) 1 results_initial) = 2
   \<and> map (\<lambda>r. (c_id (r_candidate r), r_votes r, r_percentage r))
        (rp_results (loadResults (stray_db\<lparr>votes := votes stray_db @ [stray_ballot]\<rparr>)
           (Some 100) 1 results_initial))
       = [(21, 1, 50), (22, 0, 0)]
   \<and> sum_list (map r_percentage
        (rp_results (loadResults (stray_db\<lparr>votes := votes stray_db @ [stray_ballot]\<rparr>)
           (Some 100) 1 results_initial))) = 50
   \<and> sum_tolerance < \<bar>50 - 100\<bar>"
  by code_simp

text \<open>
  Claim C7, amended. For every published election with \<open>N > 0\<close> ballots in the store,
  each naming a candidate that belongs to the election, the percentages that
  \<open>loadResults\<close> returns when its query is answered with all \<open>N\<close> ballots (as an
  administrator's is) sum to 100 within floating-point tolerance: the sum of the doubles
  returned differs from 100 by at most \<open>sum_tolerance\<close>, less than 3 parts in \<open>10 ^ 14\<close>.
  Candidates are taken with their primary key (distinct ids).
\<close>

theorem percentages_sum_to_100:
  assumes "election_by_id d uid electionId = Some e"
    and "e_results_published e = Some True"
    and "candidates_pkey d"
    and "filter (\<lambda>v. v_election_id v = electionId) (votes_select d uid)
           = filter (\<lambda>v. v_election_id v = electionId) (votes d)"
    and "filter (\<lambda>v. v_election_id v = electionId) (votes d) \<noteq> []"
    and "\<forall>v\<in>set (filter (\<lambda>v. v_election_id v = electionId) (votes d)).
           \<exists>c\<in>set (candidates d). c_id c = v_candidate_id v \<and> c_election_id c = electionId"
  shows "\<bar>sum_list (map r_percentage
              (rp_results (loadResults d uid electionId results_initial))) - 100\<bar>
           \<le> sum_tolerance
       \<and> sum_tolerance < 3 / 10 ^ 14"
proof -
  let ?all = "filter (\<lambda>v. v_election_id v = electionId) (votes d)"
  let ?cs = "filter (\<lambda>c. c_election_id c = electionId) (candidates d)"
  let ?ks = "map v_candidate_id ?all"
  have res: "rp_results (loadResults d uid electionId results_initial)
               = resultsWithVotes ?cs ?ks"
    using loadResults_published [OF assms(1,2), of results_initial] assms(4) by simp
  have pk: "distinct (map c_id ?cs)"
    using assms(3) by (simp add: candidates_pkey_def distinct_map_filter)
  have some: "?ks \<noteq> []" using assms(5) by simp
  have belong: "\<forall>k\<in>set ?ks. k \<in> c_id ` set ?cs"
    using assms(6) by (fastforce simp: image_iff)
  have "\<bar>sum_list (map r_percentage (resultsWithVotes ?cs ?ks)) - 100\<bar> \<le> sum_tolerance"
    using pk some belong by (rule resultsWithVotes_sum)
  moreover have "sum_tolerance < 3 / 10 ^ 14" by (simp add: sum_tolerance_def)
  ultimately show ?thesis unfolding res by blast
qed

theorem percentages_sum_to_100_witness:
  "election_by_id thirds_db (Some 100) 1
     = Some \<lparr>e_id = 1, e_status = Ended, e_results_published = Some True\<rparr>
   \<and> candidates_pkey thirds_db
   \<and> votes_select thirds_db (Some 100) = votes thirds_db
   \<and> length (filter (\<lambda>v. v_election_id v = 1) (votes thirds_db)) = 3
   \<and> sum_list (map r_percentage
        (rp_results (loadResults thirds_db (Some 100) 1 results_initial)))
       = 7036874417766399 / 70368744177664
   \<and> \<bar>sum_list (map r_percentage
          (rp_results (loadResults thirds_db (Some 100) 1 results_initial))) - 100\<bar>
       \<le> sum_tolerance"
proof -
  let ?e = "\<lparr>e_id = 1, e_status = Ended, e_results_published = Some True\<rparr>"
  have vis: "election_by_id thirds_db (Some 100) 1 = Some ?e"
    by (simp add: election_by_id_def elections_select_def thirds_db_def)
  have pub: "e_results_published ?e = Some True" by simp
  have pk: "candidates_pkey thirds_db" by (simp add: candidates_pkey_def thirds_db_def)
  have adm: "votes_select thirds_db (Some 100) = votes thirds_db"
    by (simp add: votes_select_def thirds_db_def has_role_def)
  have all: "filter (\<lambda>v. v_election_id v = 1) (votes_select thirds_db (Some 100))
           = filter (\<lambda>v. v_election_id v = 1) (votes thirds_db)"
    by (simp only: adm)
  have some: "filter (\<lambda>v. v_election_id v = 1) (votes thirds_db) \<noteq> []"
    by (simp add: thirds_db_def ballot_def)
  have belong: "\<forall>v\<in>set (filter (\<lambda>v. v_election_id v = 1) (votes thirds_db)).
           \<exists>c\<in>set (candidates thirds_db). c_id c = v_candidate_id v \<and> c_election_id c = 1"
    by (simp add: thirds_db_def ballot_def)
  have n: "length (filter (\<lambda>v. v_election_id v = 1) (votes thirds_db)) = 3"
    by (simp add: thirds_db_def ballot_def)
  have sum: "sum_list (map r_percentage
        (rp_results (loadResults thirds_db (Some 100) 1 results_initial)))
       = 7036874417766399 / 70368744177664"
    by code_simp
  from percentages_sum_to_100 [OF vis pub pk all some belong]
  have "\<bar>sum_list (map r_percentage
          (rp_results (loadResults thirds_db (Some 100) 1 results_initial))) - 100\<bar>
       \<le> sum_tolerance"
    by (rule conjunct1)
  with vis pk adm n sum show ?thesis by blast
qed

lemma length_filter_key_le_1:
  "distinct (map f xs) \<Longrightarrow> length (filter (\<lambda>x. f x = k) xs) \<le> 1"
proof (induction xs)
  case Nil
  then show ?case by simp
next
  case (Cons a xs)
  show ?case
  proof (cases "f a = k")
    case True
    with Cons.prems have "\<forall>x\<in>set xs. f x \<noteq> k" by (auto simp: image_iff)
    then have "filter (\<lambda>x. f x = k) xs = []" by (simp add: filter_empty_conv)
    with True show ?thesis by simp
  next
    case False
    with Cons show ?thesis by simp
  qed
qed

lemma own_ballots_of_election:
  assumes "\<not> has_role d uid RoleAdmin" and "votes_unique d"
  shows "length (filter (\<lambda>v. v_election_id v = electionId) (votes_select d uid)) \<le> 1"
proof (cases uid)
  case None
  then show ?thesis using assms(1) by (simp add: votes_select_def)
next
  case (Some u)
  have "filter (\<lambda>v. v_election_id v = electionId) (votes_select d uid)
          = filter (\<lambda>v. (v_election_id v, v_voter_id v) = (electionId, u)) (votes d)"
    using assms(1) Some by (auto simp: votes_select_def intro: filter_cong)
  moreover have "length (filter (\<lambda>v. (v_election_id v, v_voter_id v) = (electionId, u)) (votes d)) \<le> 1"
    using assms(2) unfolding votes_unique_def by (rule length_filter_key_le_1)
  ultimately show ?thesis by simp
qed

text \<open>
  Claim C9. A viewer without the admin role is returned only ballots whose voter is the
  viewer. With the store's constraint of one ballot per election and voter, the results
  page of such a viewer reads at most one ballot of an election: its total is at most
  1 and so is every candidate's count. An administrator is returned every ballot. In
  \<open>tally_db\<close> the voters 102 and 103 see different tallies of the same published
  election, and neither is the administrator's 5/3/2.
\<close>

theorem non_admin_reads_own_ballot_only:
  assumes "\<not> has_role d uid RoleAdmin" and "votes_unique d"
  shows "(\<forall>v\<in>set (votes_select d uid). uid = Some (v_voter_id v))
       \<and> length (filter (\<lambda>v. v_election_id v = electionId) (votes_select d uid)) \<le> 1
       \<and> rp_totalVotes (loadResults d uid electionId results_initial) \<le> 1
       \<and> (\<forall>r\<in>set (rp_results (loadResults d uid electionId results_initial)). r_votes r \<le> 1)
       \<and> (\<forall>a. has_role d a RoleAdmin \<longrightarrow> votes_select d a = votes d)
       \<and> \<not> has_role tally_db (Some 102) RoleAdmin
       \<and> \<not> has_role tally_db (Some 103) RoleAdmin
       \<and> map (\<lambda>r. (c_id (r_candidate r), r_votes r))
            (rp_results (loadResults tally_db (Some 102) 1 results_initial))
           = [(21, 1), (23, 0), (22, 0)]
       \<and> map (\<lambda>r. (c_id (r_candidate r), r_votes r))
            (rp_results (loadResults tally_db (Some 103) 1 results_initial))
           = [(23, 1), (21, 0), (22, 0)]
       \<and> map (\<lambda>r. (c_id (r_candidate r), r_votes r))
            (rp_results (loadResults tally_db (Some 100) 1 results_initial))
           = [(21, 5), (22, 3), (23, 2)]"
proof -
  let ?read = "filter (\<lambda>v. v_election_id v = electionId) (votes_select d uid)"
  let ?page = "loadResults d uid electionId results_initial"
  have own: "\<forall>v\<in>set (votes_select d uid). uid = Some (v_voter_id v)"
    using assms(1) by (simp add: votes_select_def)
  have one: "length ?read \<le> 1" using assms by (rule own_ballots_of_election)
  have page: "?page = results_initial\<lparr>rp_navigated := Some ''/dashboard''\<rparr>
      \<or> (rp_totalVotes ?page = length ?read
          \<and> rp_results ?page = resultsWithVotes
               (filter (\<lambda>c. c_election_id c = electionId) (candidates d))
               (map v_candidate_id ?read))"
    by (auto simp: loadResults_def candidates_select_def Let_def split: option.splits)
  have total: "rp_totalVotes ?page \<le> 1"
    using page one by (auto simp: results_initial_def)
  have rows: "\<forall>r\<in>set (rp_results ?page). r_votes r \<le> 1"
  proof
    fix r assume r: "r \<in> set (rp_results ?page)"
    with page have "r \<in> set (resultsWithVotes
               (filter (\<lambda>c. c_election_id c = electionId) (candidates d))
               (map v_candidate_id ?read))"
      by (auto simp: results_initial_def)
    then have "r_votes r = length (filter (\<lambda>k. k = c_id (r_candidate r)) (map v_candidate_id ?read))"
      using resultsWithVotes_row by blast
    also have "\<dots> \<le> length (map v_candidate_id ?read)" by (rule length_filter_le)
    finally show "r_votes r \<le> 1" using one by simp
  qed
  have admin: "\<forall>a. has_role d a RoleAdmin \<longrightarrow> votes_select d a = votes d"
    by (simp add: votes_select_def)
  have ex: "\<not> has_role tally_db (Some 102) RoleAdmin
       \<and> \<not> has_role tally_db (Some 103) RoleAdmin
       \<and> map (\<lambda>r. (c_id (r_candidate r), r_votes r))
            (rp_results (loadResults tally_db (Some 102) 1 results_initial))
           = [(21, 1), (23, 0), (22, 0)]
       \<and> map (\<lambda>r. (c_id (r_candidate r), r_votes r))
            (rp_results (loadResults tally_db (Some 103) 1 results_initial))
           = [(23, 1), (21, 0), (22, 0)]
       \<and> map (\<lambda>r. (c_id (r_candidate r), r_votes r))
            (rp_results (loadResults tally_db (Some 100) 1 results_initial))
           = [(21, 5), (22, 3), (23, 2)]"
    by (simp add: loadResults_def election_by_id_def elections_select_def tally_db_def has_role_def
      truthy_def candidates_select_def votes_select_def resultsWithVotes_def voteCounts_def
      ballot_def results_initial_def)
  show ?thesis using own one total rows admin ex by blast
qed

theorem non_admin_reads_own_ballot_only_witness:
  "\<not> has_role tally_db (Some 103) RoleAdmin
   \<and> votes_unique tally_db
   \<and> votes_select tally_db (Some 103) = [ballot 1 23 103 ''VR-3-c'']
   \<and> rp_totalVotes (loadResults tally_db (Some 103) 1 results_initial) = 1
   \<and> votes_select tally_db (Some 100) = votes tally_db
   \<and> length (votes tally_db) = 10"
proof -
  have role: "\<not> has_role tally_db (Some 103) RoleAdmin"
    by (simp add: tally_db_def has_role_def)
  have uniq: "votes_unique tally_db"
    by (simp add: votes_unique_def tally_db_def ballot_def)
  have read: "votes_select tally_db (Some 103) = [ballot 1 23 103 ''VR-3-c'']"
    by (simp add: votes_select_def tally_db_def has_role_def ballot_def)
  have adm: "has_role tally_db (Some 100) RoleAdmin"
    by (simp add: tally_db_def has_role_def)
  have total: "rp_totalVotes (loadResults tally_db (Some 103) 1 results_initial) = 1"
    by (simp add: loadResults_def election_by_id_def elections_select_def tally_db_def has_role_def
      truthy_def votes_select_def ballot_def results_initial_def)
  have n: "length (votes tally_db) = 10" by (simp add: tally_db_def)
  from non_admin_reads_own_ballot_only [OF role uniq, of 1]
  show ?thesis using role uniq read adm total n by blast
qed

section \<open>Facts about the ballot store and the voting page\<close>

lemma votes_insert_Inr:
  "votes_insert d uid row = Inr d' \<Longrightarrow>
     d' = d\<lparr>votes := votes d @ [row]\<rparr>
     \<and> (\<forall>v\<in>set (votes d). (v_election_id v, v_voter_id v) \<noteq> (v_election_id row, v_voter_id row))"
  by (auto simp: votes_insert_def list_ex_iff split: if_splits)

lemma votes_insert_duplicate:
  assumes "\<exists>v\<in>set (votes d). v_election_id v = v_election_id row \<and> v_voter_id v = v_voter_id row"
  shows "\<exists>err. votes_insert d uid row = Inl err"
  using assms by (auto simp: votes_insert_def list_ex_iff)

lemma votes_insert_unique:
  assumes "votes_unique d" and "votes_insert d uid row = Inr d'"
  shows "votes_unique d'"
proof -
  from votes_insert_Inr [OF assms(2)]
  have d': "d' = d\<lparr>votes := votes d @ [row]\<rparr>"
    and fresh: "\<forall>v\<in>set (votes d).
                  (v_election_id v, v_voter_id v) \<noteq> (v_election_id row, v_voter_id row)"
    by blast+
  from fresh have "(v_election_id row, v_voter_id row)
      \<notin> set (map (\<lambda>v. (v_election_id v, v_voter_id v)) (votes d))"
    by (auto simp: image_iff)
  with assms(1) show ?thesis by (simp add: d' votes_unique_def)
qed

text \<open>The store after \<open>verifyAndSubmit\<close>: unchanged, or the one new row appended.\<close>

lemma verifyAndSubmit_store:
  "fst (verifyAndSubmit b d session electionId now rnd page) = d
   \<or> (\<exists>uid c. session = Some uid \<and> vp_selectedCandidate page = Some c
         \<and> votes_insert d (Some uid)
              \<lparr>v_election_id = electionId, v_candidate_id = c, v_voter_id = uid,
               v_vote_receipt = ''VR-'' @ now @ ''-'' @ rnd, v_face_verified = Some True\<rparr>
            = Inr (fst (verifyAndSubmit b d session electionId now rnd page)))"
  by (auto simp: verifyAndSubmit_def Let_def split: option.splits sum.splits)

lemma verifyAndSubmit_unique:
  assumes "votes_unique d"
  shows "votes_unique (fst (verifyAndSubmit b d session electionId now rnd page))"
  using verifyAndSubmit_store [of b d session electionId now rnd page] assms
  by (auto dest: votes_insert_unique)

lemma cast_attempts_unique:
  "votes_unique d \<Longrightarrow> votes_unique (cast_attempts b d attempts)"
  unfolding cast_attempts_def
  by (induction attempts arbitrary: d) (auto simp: verifyAndSubmit_unique)

lemma verifyAndSubmit_duplicate:
  assumes "\<exists>v\<in>set (votes d). v_election_id v = electionId \<and> v_voter_id v = uid"
  shows "fst (verifyAndSubmit b d (Some uid) electionId now rnd page) = d"
proof (cases "vp_selectedCandidate page")
  case None
  then show ?thesis by (simp add: verifyAndSubmit_def)
next
  case (Some c)
  let ?row = "\<lparr>v_election_id = electionId, v_candidate_id = c, v_voter_id = uid,
               v_vote_receipt = ''VR-'' @ now @ ''-'' @ rnd, v_face_verified = Some True\<rparr>"
  from assms have "\<exists>err. votes_insert d (Some uid) ?row = Inl err"
    by (intro votes_insert_duplicate) simp
  with Some show ?thesis by (auto simp: verifyAndSubmit_def)
qed

lemma loadElection_voted:
  assumes "votes_unique d"
    and "v \<in> set (votes d)" and "v_election_id v = electionId" and "v_voter_id v = uid"
    and "election_by_id d (Some uid) electionId = Some e" and "e_status e = Active"
  shows "vp_hasVoted (loadElection d (Some uid) electionId page)"
proof -
  let ?key = "\<lambda>v. (v_election_id v, v_voter_id v)"
  have "filter (\<lambda>x. ?key x = ?key v) (votes d) = [v]"
    using assms(1,2) unfolding votes_unique_def by (intro filter_pkey)
  moreover have "filter (\<lambda>v. v_election_id v = electionId \<and> v_voter_id v = uid)
                   (votes_select d (Some uid))
        = filter (\<lambda>x. ?key x = ?key v) (votes d)"
    using assms(3,4) by (auto simp: votes_select_def intro: filter_cong)
  ultimately have "single_row (filter (\<lambda>v. v_election_id v = electionId \<and> v_voter_id v = uid)
                   (votes_select d (Some uid))) = Some v"
    by simp
  then show ?thesis using assms(5,6) by (simp add: loadElection_def Let_def)
qed

lemma vote_step_loading:
  "vp_loading page \<Longrightarrow> vote_step b electionId (d, page) ev = (d, page)"
  by (simp add: vote_step_def rendered_def)

lemma vote_run_loading:
  "vp_loading page \<Longrightarrow> vote_run b electionId (d, page) evs = (d, page)"
  unfolding vote_run_def by (induction evs) (simp_all add: vote_step_loading)

lemma ready_page_eq:
  "ready_page uid =
     \<lparr>vp_election = Some \<lparr>e_id = 1, e_status = Active, e_results_published = Some False\<rparr>,
      vp_candidates =
        [\<lparr>c_id = 21, c_election_id = 1, c_name = ''Ada'', c_party = ''Blue''\<rparr>,
         \<lparr>c_id = 22, c_election_id = 1, c_name = ''Bo'', c_party = ''Red''\<rparr>],
      vp_selectedCandidate = Some 21, vp_showVerification = True, vp_verifying = False,
      vp_loading = False, vp_hasVoted = False, vp_stream = Some True, vp_toasts = [],
      vp_navigated = None\<rparr>"
  by (simp add: ready_page_def vote_run_def vote_step_def rendered_def loadElection_def
      election_by_id_def elections_select_def candidates_select_def votes_select_def
      poll_db_def vote_initial_def handleCastVote_def startCamera_def Let_def)

lemma voted_db_eq:
  "voted_db = poll_db\<lparr>votes := [ballot 1 21 101 ''VR-1700000000000-k3j9x2m1q'']\<rparr>"
  by (simp add: voted_db_def ready_page_eq verifyAndSubmit_def votes_insert_def poll_db_def
      registered_def ballot_def Let_def)

lemma votes_insert_duplicate_error:
  assumes "\<not> list_ex (\<lambda>v. v_vote_receipt v = v_vote_receipt row) (votes d)"
    and "\<exists>v\<in>set (votes d). v_election_id v = v_election_id row \<and> v_voter_id v = v_voter_id row"
  shows "votes_insert d (Some (v_voter_id row)) row
           = Inl (UniqueViolation ''votes_election_id_voter_id_key'')"
  using assms by (auto simp: votes_insert_def list_ex_iff)

lemma duplicate_cast_outcome:
  assumes "\<exists>v\<in>set (votes d). v_election_id v = electionId \<and> v_voter_id v = uid"
    and "vp_selectedCandidate page \<noteq> None"
  shows "\<exists>err. verifyAndSubmit clientErrorIsError d (Some uid) electionId now rnd page
           = (d, page\<lparr>vp_toasts := vp_toasts page
                         @ (if clientErrorIsError then [ToastError (pg_message err)] else []),
                      vp_verifying := False\<rparr>)"
proof -
  from assms(2) obtain c where c: "vp_selectedCandidate page = Some c" by blast
  let ?row = "\<lparr>v_election_id = electionId, v_candidate_id = c, v_voter_id = uid,
               v_vote_receipt = ''VR-'' @ now @ ''-'' @ rnd, v_face_verified = Some True\<rparr>"
  from assms(1) have "\<exists>err. votes_insert d (Some uid) ?row = Inl err"
    by (intro votes_insert_duplicate) simp
  then obtain err where "votes_insert d (Some uid) ?row = Inl err" by blast
  with c have "verifyAndSubmit clientErrorIsError d (Some uid) electionId now rnd page
           = (d, page\<lparr>vp_toasts := vp_toasts page
                         @ (if clientErrorIsError then [ToastError (pg_message err)] else []),
                      vp_verifying := False\<rparr>)"
    by (simp add: verifyAndSubmit_def catch_error_def)
  then show ?thesis by blast
qed

text \<open>
  Neither \<open>loadElection\<close> nor the store's answer to \<open>verifyAndSubmit\<close>'s insert reads
  \<^verbatim>\<open>face_registered\<close>: with the flags of all profiles replaced, both are as before.
\<close>

lemma selects_ignore_profiles:
  "election_by_id (d\<lparr>profiles := ps\<rparr>) uid electionId = election_by_id d uid electionId"
  "candidates_select (d\<lparr>profiles := ps\<rparr>) uid = candidates_select d uid"
  "votes_select (d\<lparr>profiles := ps\<rparr>) uid = votes_select d uid"
  by (simp_all add: election_by_id_def elections_select_def has_role_def
      candidates_select_def votes_select_def)

lemma loadElection_ignores_profiles:
  "loadElection (d\<lparr>profiles := ps\<rparr>) session electionId page
     = loadElection d session electionId page"
  unfolding loadElection_def selects_ignore_profiles by (rule refl)

lemma verifyAndSubmit_ignores_face_registered:
  "votes (fst (verifyAndSubmit b
                 (d\<lparr>profiles := map (\<lambda>p. p\<lparr>p_face_registered := flag p\<rparr>) (profiles d)\<rparr>)
                 session electionId now rnd page))
     = votes (fst (verifyAndSubmit b d session electionId now rnd page))"
  by (auto simp: verifyAndSubmit_def votes_insert_def list_ex_iff Let_def
      split: option.splits sum.splits if_splits)

section \<open>Claims about the voting page\<close>

text \<open>
  Claim C1. Starting from a store that satisfies the constraint
  \<^verbatim>\<open>UNIQUE(election_id, voter_id)\<close>, after any number of cast attempts, from any
  pages and sessions and in any interleaving, the store still satisfies it: for every
  election and voter there is at most one ballot. An insert for an election and voter
  that already have a ballot fails, so \<open>verifyAndSubmit\<close> leaves the store as it was;
  and \<open>loadElection\<close> marks the voter as having voted when the voter's ballot for the
  (active) election exists.
\<close>

theorem one_ballot_per_election_and_voter:
  assumes "votes_unique d"
  shows "votes_unique (cast_attempts b d attempts)
       \<and> (\<forall>E V. length (filter (\<lambda>v. v_election_id v = E \<and> v_voter_id v = V)
                          (votes (cast_attempts b d attempts))) \<le> 1)
       \<and> ((\<exists>v\<in>set (votes d). v_election_id v = v_election_id row
                                \<and> v_voter_id v = v_voter_id row)
            \<longrightarrow> (\<exists>err. votes_insert d uid row = Inl err))
       \<and> ((\<exists>v\<in>set (votes d). v_election_id v = electionId \<and> v_voter_id v = voter)
            \<longrightarrow> fst (verifyAndSubmit b d (Some voter) electionId now rnd page) = d)
       \<and> ((\<exists>v\<in>set (votes d). v_election_id v = electionId \<and> v_voter_id v = voter)
            \<and> election_by_id d (Some voter) electionId = Some e \<and> e_status e = Active
            \<longrightarrow> vp_hasVoted (loadElection d (Some voter) electionId page))"
proof -
  have inv: "votes_unique (cast_attempts b d attempts)"
    using assms by (rule cast_attempts_unique)
  have one: "length (filter (\<lambda>v. v_election_id v = E \<and> v_voter_id v = V)
                          (votes (cast_attempts b d attempts))) \<le> 1" for E V
  proof -
    have "length (filter (\<lambda>v. (v_election_id v, v_voter_id v) = (E, V))
             (votes (cast_attempts b d attempts))) \<le> 1"
      using inv unfolding votes_unique_def by (rule length_filter_key_le_1)
    then show ?thesis by simp
  qed
  have dup: "(\<exists>v\<in>set (votes d). v_election_id v = v_election_id row
                                \<and> v_voter_id v = v_voter_id row)
            \<longrightarrow> (\<exists>err. votes_insert d uid row = Inl err)"
    using votes_insert_duplicate by blast
  have again: "(\<exists>v\<in>set (votes d). v_election_id v = electionId \<and> v_voter_id v = voter)
            \<longrightarrow> fst (verifyAndSubmit b d (Some voter) electionId now rnd page) = d"
    using verifyAndSubmit_duplicate by blast
  have seen: "(\<exists>v\<in>set (votes d). v_election_id v = electionId \<and> v_voter_id v = voter)
            \<and> election_by_id d (Some voter) electionId = Some e \<and> e_status e = Active
            \<longrightarrow> vp_hasVoted (loadElection d (Some voter) electionId page)"
    using loadElection_voted [OF assms] by blast
  show ?thesis using inv one dup again seen by blast
qed

theorem one_ballot_per_election_and_voter_witness:
  "votes_unique voted_db
   \<and> votes (cast_attempts False voted_db
        [\<lparr>a_session = Some 101, a_electionId = 1, a_now = ''1700000000001'',
          a_rnd = ''p0o9i8u7y'', a_page = ready_page 101\<rparr>,
         \<lparr>a_session = Some 105, a_electionId = 1, a_now = ''1700000000002'',
          a_rnd = ''a1b2c3d4e'', a_page = ready_page 105\<rparr>,
         \<lparr>a_session = Some 101, a_electionId = 1, a_now = ''1700000000003'',
          a_rnd = ''z9y8x7w6v'', a_page = (ready_page 101)\<lparr>vp_selectedCandidate := Some 22\<rparr>\<rparr>])
       = [ballot 1 21 101 ''VR-1700000000000-k3j9x2m1q'',
          ballot 1 21 105 ''VR-1700000000002-a1b2c3d4e'']
   \<and> votes_insert voted_db (Some 101) (ballot 1 22 101 ''VR-1700000000003-z9y8x7w6v'')
       = Inl (UniqueViolation ''votes_election_id_voter_id_key'')
   \<and> fst (verifyAndSubmit False voted_db (Some 101) 1 ''1700000000001'' ''p0o9i8u7y''
            (ready_page 101)) = voted_db
   \<and> vp_hasVoted (loadElection voted_db (Some 101) 1 vote_initial)"
proof -
  let ?as = "[\<lparr>a_session = Some 101, a_electionId = 1, a_now = ''1700000000001'',
          a_rnd = ''p0o9i8u7y'', a_page = ready_page 101\<rparr>,
         \<lparr>a_session = Some 105, a_electionId = 1, a_now = ''1700000000002'',
          a_rnd = ''a1b2c3d4e'', a_page = ready_page 105\<rparr>,
         \<lparr>a_session = Some 101, a_electionId = 1, a_now = ''1700000000003'',
          a_rnd = ''z9y8x7w6v'', a_page = (ready_page 101)\<lparr>vp_selectedCandidate := Some 22\<rparr>\<rparr>]"
  let ?e = "\<lparr>e_id = 1, e_status = Active, e_results_published = Some False\<rparr>"
  have uniq: "votes_unique voted_db"
    by (simp add: voted_db_eq votes_unique_def ballot_def)
  have run: "votes (cast_attempts False voted_db ?as)
       = [ballot 1 21 101 ''VR-1700000000000-k3j9x2m1q'',
          ballot 1 21 105 ''VR-1700000000002-a1b2c3d4e'']"
    by (simp add: cast_attempts_def voted_db_eq ready_page_eq verifyAndSubmit_def
        votes_insert_def poll_db_def registered_def ballot_def Let_def catch_error_def)
  have ins: "votes_insert voted_db (Some 101) (ballot 1 22 101 ''VR-1700000000003-z9y8x7w6v'')
       = Inl (UniqueViolation ''votes_election_id_voter_id_key'')"
    by (simp add: voted_db_eq votes_insert_def poll_db_def ballot_def)
  have ex: "\<exists>v\<in>set (votes voted_db). v_election_id v = 1 \<and> v_voter_id v = 101"
    by (simp add: voted_db_eq ballot_def)
  have vis: "election_by_id voted_db (Some 101) 1 = Some ?e"
    by (simp add: voted_db_eq election_by_id_def elections_select_def poll_db_def)
  have act: "e_status ?e = Active" by simp
  from one_ballot_per_election_and_voter [OF uniq, where b = False and attempts = ?as
      and row = "ballot 1 22 101 ''VR-1700000000003-z9y8x7w6v''" and uid = "Some 101"
      and electionId = 1 and voter = 101 and now = "''1700000000001''"
      and rnd = "''p0o9i8u7y''" and page = "ready_page 101" and e = ?e]
  have "fst (verifyAndSubmit False voted_db (Some 101) 1 ''1700000000001'' ''p0o9i8u7y''
            (ready_page 101)) = voted_db"
    using ex by blast
  moreover
  from one_ballot_per_election_and_voter [OF uniq, where electionId = 1 and voter = 101
      and page = vote_initial and e = ?e]
  have "vp_hasVoted (loadElection voted_db (Some 101) 1 vote_initial)"
    using ex vis act by blast
  ultimately show ?thesis using uniq run ins by blast
qed

lemma paused_db_eq:
  "paused_db = poll_db\<lparr>elections := [\<lparr>e_id = 1, e_status = Paused,
                                          e_results_published = Some False\<rparr>]\<rparr>"
  by (simp add: paused_db_def updateElectionStatus_def has_role_def poll_db_def)

text \<open>
  The guard of \<open>loadElection\<close>: an election whose status is not \<open>Active\<close> when the page
  loads it is refused with "This election is not available for voting", and the page
  stays in its loading state, in which no control of the cast flow is rendered.
\<close>

lemma loadElection_rejects_inactive:
  assumes "elections_pkey d" and "e \<in> set (elections d)" and "e_status e \<noteq> Active"
  shows "loadElection d (Some uid) (e_id e) page
           = page\<lparr>vp_toasts := vp_toasts page
                      @ [ToastError ''This election is not available for voting''],
                   vp_navigated := Some ''/dashboard''\<rparr>
       \<and> vp_loading (loadElection d (Some uid) (e_id e) vote_initial)
       \<and> vote_run b (e_id e) (d', loadElection d (Some uid) (e_id e) vote_initial) evs
           = (d', loadElection d (Some uid) (e_id e) vote_initial)"
proof -
  have "election_by_id d (Some uid) (e_id e) = None
        \<or> election_by_id d (Some uid) (e_id e) = Some e"
    using assms(1,2) by (rule election_by_id_pkey)
  then have rejected: "loadElection d (Some uid) (e_id e) pg
           = pg\<lparr>vp_toasts := vp_toasts pg
                      @ [ToastError ''This election is not available for voting''],
                   vp_navigated := Some ''/dashboard''\<rparr>" for pg
    using assms(3) by (auto simp: loadElection_def)
  then have loading: "vp_loading (loadElection d (Some uid) (e_id e) vote_initial)"
    by (simp add: vote_initial_def)
  from loading have "vote_run b (e_id e) (d', loadElection d (Some uid) (e_id e) vote_initial) evs
           = (d', loadElection d (Some uid) (e_id e) vote_initial)"
    by (rule vote_run_loading)
  with rejected loading show ?thesis by blast
qed

text \<open>
  \<open>verifyAndSubmit\<close> and the insert read no status: with the status of every election
  replaced, the ballots stored are the same.
\<close>

lemma verifyAndSubmit_ignores_status:
  "votes (fst (verifyAndSubmit b
                 (d\<lparr>elections := map (\<lambda>e. e\<lparr>e_status := status e\<rparr>) (elections d)\<rparr>)
                 session electionId now rnd page))
     = votes (fst (verifyAndSubmit b d session electionId now rnd page))"
  by (auto simp: verifyAndSubmit_def votes_insert_def list_ex_iff Let_def
      split: option.splits sum.splits if_splits)

text \<open>
  Claim C2, evaluated on the code. Voter 101 opens the voting page while election 1 is
  active, selects a candidate, presses "Cast Vote" and starts the camera; the
  administrator then pauses the election; the voter presses "Verify & Submit Vote". The
  insert is accepted: the store holds the voter's ballot for the paused election and
  the page shows the success toast. The same voter opening the page on the paused
  election is refused by the guard of \<open>loadElection\<close>.
\<close>

theorem ballot_accepted_for_paused_election:
  "ready_page 101
     = snd (vote_run False 1 (poll_db, loadElection poll_db (Some 101) 1 vote_initial)
              [ClickCandidate 21, ClickCastVote, ClickStartVerification True])
   \<and> paused_db = updateElectionStatus poll_db (Some 100) 1 Paused
   \<and> map (\<lambda>e. (e_id e, e_status e)) (elections paused_db) = [(1, Paused)]
   \<and> votes paused_db = []
   \<and> votes (fst (vote_step False 1 (paused_db, ready_page 101)
                    (ClickVerifySubmit (Some 101) ''1700000000000'' ''k3j9x2m1q'')))
       = [ballot 1 21 101 ''VR-1700000000000-k3j9x2m1q'']
   \<and> map (\<lambda>e. (e_id e, e_status e))
        (elections (fst (vote_step False 1 (paused_db, ready_page 101)
                    (ClickVerifySubmit (Some 101) ''1700000000000'' ''k3j9x2m1q''))))
       = [(1, Paused)]
   \<and> vp_toasts (snd (vote_step False 1 (paused_db, ready_page 101)
                    (ClickVerifySubmit (Some 101) ''1700000000000'' ''k3j9x2m1q'')))
       = [ToastSuccess ''Vote cast successfully! Receipt: VR-1700000000000-k3j9x2m1q'']
   \<and> vp_toasts (loadElection paused_db (Some 101) 1 vote_initial)
       = [ToastError ''This election is not available for voting'']"
proof -
  have page: "ready_page 101
     = snd (vote_run False 1 (poll_db, loadElection poll_db (Some 101) 1 vote_initial)
              [ClickCandidate 21, ClickCastVote, ClickStartVerification True])"
    by (rule ready_page_def)
  have store: "paused_db = updateElectionStatus poll_db (Some 100) 1 Paused"
    by (rule paused_db_def)
  have run: "map (\<lambda>e. (e_id e, e_status e)) (elections paused_db) = [(1, Paused)]
   \<and> votes paused_db = []
   \<and> votes (fst (vote_step False 1 (paused_db, ready_page 101)
                    (ClickVerifySubmit (Some 101) ''1700000000000'' ''k3j9x2m1q'')))
       = [ballot 1 21 101 ''VR-1700000000000-k3j9x2m1q'']
   \<and> map (\<lambda>e. (e_id e, e_status e))
        (elections (fst (vote_step False 1 (paused_db, ready_page 101)
                    (ClickVerifySubmit (Some 101) ''1700000000000'' ''k3j9x2m1q''))))
       = [(1, Paused)]
   \<and> vp_toasts (snd (vote_step False 1 (paused_db, ready_page 101)
                    (ClickVerifySubmit (Some 101) ''1700000000000'' ''k3j9x2m1q'')))
       = [ToastSuccess ''Vote cast successfully! Receipt: VR-1700000000000-k3j9x2m1q'']"
    by (simp add: paused_db_eq ready_page_eq vote_step_def rendered_def verifyAndSubmit_def
        votes_insert_def poll_db_def registered_def ballot_def Let_def)
  have guard: "vp_toasts (loadElection paused_db (Some 101) 1 vote_initial)
       = [ToastError ''This election is not available for voting'']"
    by (simp add: paused_db_eq loadElection_def election_by_id_def elections_select_def
        has_role_def poll_db_def vote_initial_def)
  from page store run guard show ?thesis by blast
qed

text \<open>
  Claim C3, evaluated on the code. Voter 101 has cast a ballot (\<open>voted_db\<close>) and submits
  again from a second page that was opened before. The insert fails on the constraint
  and the store is unchanged, but with the client's \<^verbatim>\<open>error\<close> object being a plain
  object (\<open>clientErrorIsError = False\<close>) the \<^verbatim>\<open>catch\<close> block shows nothing: the page
  is exactly as it was before the click, with no toast and the dialog still open. Were
  the object an instance of \<^verbatim>\<open>Error\<close>, the message would be shown.
\<close>

theorem duplicate_cast_shows_no_error:
  "votes voted_db = [ballot 1 21 101 ''VR-1700000000000-k3j9x2m1q'']
   \<and> verifyAndSubmit False voted_db (Some 101) 1 ''1700000000001'' ''p0o9i8u7y'' (ready_page 101)
       = (voted_db, ready_page 101)
   \<and> vp_toasts (ready_page 101) = []
   \<and> vp_showVerification (ready_page 101)
   \<and> verifyAndSubmit True voted_db (Some 101) 1 ''1700000000001'' ''p0o9i8u7y'' (ready_page 101)
       = (voted_db, (ready_page 101)\<lparr>vp_toasts :=
            [ToastError ''duplicate key value violates unique constraint votes_election_id_voter_id_key'']\<rparr>)"
  by (simp add: voted_db_eq ready_page_eq verifyAndSubmit_def votes_insert_def poll_db_def
      registered_def ballot_def Let_def catch_error_def)

text \<open>
  Claim C8, evaluated on the code. Voter 105 has \<^verbatim>\<open>face_registered = false\<close>. The
  dashboard sends this voter to the face registration and lists no election; but the
  voter who opens \<^verbatim>\<open>/vote/1\<close> directly passes \<open>loadElection\<close>, which does not read the
  profile, and the flow inserts the voter's ballot, marked \<^verbatim>\<open>face_verified\<close>.
\<close>

theorem unregistered_voter_casts_ballot:
  "map p_face_registered (filter (\<lambda>p. p_id p = 105) (profiles poll_db)) = [Some False]
   \<and> dp_navigated (initDashboard poll_db (Some 105) dashboard_initial) = Some ''/face-registration''
   \<and> dp_loading (initDashboard poll_db (Some 105) dashboard_initial)
   \<and> votes (fst (vote_run False 1 (poll_db, loadElection poll_db (Some 105) 1 vote_initial)
        [ClickCandidate 21, ClickCastVote, ClickStartVerification True,
         ClickVerifySubmit (Some 105) ''1700000000000'' ''k3j9x2m1q'']))
       = [\<lparr>v_election_id = 1, v_candidate_id = 21, v_voter_id = 105,
           v_vote_receipt = ''VR-1700000000000-k3j9x2m1q'', v_face_verified = Some True\<rparr>]"
  by (simp add: initDashboard_def profiles_select_def has_role_def dashboard_initial_def
      truthy_def vote_run_def vote_step_def rendered_def loadElection_def
      election_by_id_def elections_select_def candidates_select_def votes_select_def
      poll_db_def vote_initial_def handleCastVote_def startCamera_def Let_def
      verifyAndSubmit_def votes_insert_def registered_def)


lemma verifyAndSubmit_votes:
  "votes (fst (verifyAndSubmit b d session electionId now rnd page)) = votes d
   \<or> (\<exists>uid c. session = Some uid \<and> vp_selectedCandidate page = Some c
         \<and> votes (fst (verifyAndSubmit b d session electionId now rnd page))
             = votes d @ [\<lparr>v_election_id = electionId, v_candidate_id = c, v_voter_id = uid,
                           v_vote_receipt = ''VR-'' @ now @ ''-'' @ rnd,
                           v_face_verified = Some True\<rparr>])"
proof -
  from verifyAndSubmit_store [of b d session electionId now rnd page]
  show ?thesis
  proof
    assume "fst (verifyAndSubmit b d session electionId now rnd page) = d"
    then show ?thesis by simp
  next
    assume "\<exists>uid c. session = Some uid \<and> vp_selectedCandidate page = Some c
         \<and> votes_insert d (Some uid)
              \<lparr>v_election_id = electionId, v_candidate_id = c, v_voter_id = uid,
               v_vote_receipt = ''VR-'' @ now @ ''-'' @ rnd, v_face_verified = Some True\<rparr>
            = Inr (fst (verifyAndSubmit b d session electionId now rnd page))"
    then obtain uid c where s: "session = Some uid" "vp_selectedCandidate page = Some c"
      and ins: "votes_insert d (Some uid)
              \<lparr>v_election_id = electionId, v_candidate_id = c, v_voter_id = uid,
               v_vote_receipt = ''VR-'' @ now @ ''-'' @ rnd, v_face_verified = Some True\<rparr>
            = Inr (fst (verifyAndSubmit b d session electionId now rnd page))"
      by blast
    from votes_insert_Inr [OF ins]
    have "votes (fst (verifyAndSubmit b d session electionId now rnd page))
             = votes d @ [\<lparr>v_election_id = electionId, v_candidate_id = c, v_voter_id = uid,
                           v_vote_receipt = ''VR-'' @ now @ ''-'' @ rnd,
                           v_face_verified = Some True\<rparr>]"
      by (metis db.select_convs(5) db.surjective db.update_convs(5))
    with s show ?thesis by blast
  qed
qed

lemma verifyAndSubmit_verified:
  assumes "\<forall>v\<in>set (votes d). v \<in> old \<or> v_face_verified v = Some True"
  shows "\<forall>v\<in>set (votes (fst (verifyAndSubmit b d session electionId now rnd page))).
           v \<in> old \<or> v_face_verified v = Some True"
  using verifyAndSubmit_votes [of b d session electionId now rnd page] assms by auto

lemma vote_step_verified:
  assumes "\<forall>v\<in>set (votes (fst st)). v \<in> old \<or> v_face_verified v = Some True"
  shows "\<forall>v\<in>set (votes (fst (vote_step b electionId st ev))).
           v \<in> old \<or> v_face_verified v = Some True"
proof (cases "rendered (snd st) ev")
  case False
  with assms show ?thesis by (simp add: vote_step_def)
next
  case True
  show ?thesis
  proof (cases ev)
    case (ClickVerifySubmit session now rnd)
    with True show ?thesis
      using verifyAndSubmit_verified [OF assms, of b session electionId now rnd "snd st"]
      by (simp add: vote_step_def)
  qed (use assms True in \<open>simp_all add: vote_step_def\<close>)
qed

lemma vote_run_verified:
  assumes "\<forall>v\<in>set (votes (fst st)). v \<in> old \<or> v_face_verified v = Some True"
  shows "\<forall>v\<in>set (votes (fst (vote_run b electionId st evs))).
           v \<in> old \<or> v_face_verified v = Some True"
  using assms unfolding vote_run_def
proof (induction evs arbitrary: st)
  case Nil
  then show ?case by simp
next
  case (Cons ev evs)
  from Cons.prems have "\<forall>v\<in>set (votes (fst (vote_step b electionId st ev))).
           v \<in> old \<or> v_face_verified v = Some True"
    by (rule vote_step_verified)
  then show ?case using Cons.IH by simp
qed

lemma cast_attempts_verified:
  assumes "\<forall>v\<in>set (votes d). v \<in> old \<or> v_face_verified v = Some True"
  shows "\<forall>v\<in>set (votes (cast_attempts b d attempts)).
           v \<in> old \<or> v_face_verified v = Some True"
  using assms unfolding cast_attempts_def
proof (induction attempts arbitrary: d)
  case Nil
  then show ?case by simp
next
  case (Cons a attempts)
  from Cons.prems have "\<forall>v\<in>set (votes (fst (verifyAndSubmit b d (a_session a) (a_electionId a)
                         (a_now a) (a_rnd a) (a_page a)))).
           v \<in> old \<or> v_face_verified v = Some True"
    by (rule verifyAndSubmit_verified)
  then show ?case using Cons.IH by simp
qed

text \<open>
  Claim C10. \<open>verifyAndSubmit\<close> either leaves the ballots as they are or appends one
  ballot whose \<^verbatim>\<open>face_verified\<close> is true; so every ballot that a run of the voting page,
  or any sequence of cast attempts, adds to the store has \<^verbatim>\<open>face_verified = true\<close>. With
  a session and a selected candidate, whether the ballot is stored is decided by the
  insert alone: nothing of the page (the camera stream included) and no comparison of
  faces enters.
\<close>

theorem cast_ballots_are_marked_verified:
  "(votes (fst (verifyAndSubmit b d session electionId now rnd page)) = votes d
     \<or> (\<exists>uid c. session = Some uid \<and> vp_selectedCandidate page = Some c
         \<and> votes (fst (verifyAndSubmit b d session electionId now rnd page))
             = votes d @ [\<lparr>v_election_id = electionId, v_candidate_id = c, v_voter_id = uid,
                           v_vote_receipt = ''VR-'' @ now @ ''-'' @ rnd,
                           v_face_verified = Some True\<rparr>]))
   \<and> (\<forall>v\<in>set (votes (fst (vote_run b electionId (d, page) evs))).
         v \<in> set (votes d) \<or> v_face_verified v = Some True)
   \<and> (\<forall>v\<in>set (votes (cast_attempts b d attempts)).
         v \<in> set (votes d) \<or> v_face_verified v = Some True)
   \<and> (\<forall>uid c. vp_selectedCandidate page = Some c \<longrightarrow>
         fst (verifyAndSubmit b d (Some uid) electionId now rnd page)
           = (case votes_insert d (Some uid)
                     \<lparr>v_election_id = electionId, v_candidate_id = c, v_voter_id = uid,
                      v_vote_receipt = ''VR-'' @ now @ ''-'' @ rnd,
                      v_face_verified = Some True\<rparr>
              of Inl err \<Rightarrow> d | Inr d' \<Rightarrow> d'))"
proof -
  have start: "\<forall>v\<in>set (votes (fst (d, page))). v \<in> set (votes d) \<or> v_face_verified v = Some True"
    by simp
  have run: "\<forall>v\<in>set (votes (fst (vote_run b electionId (d, page) evs))).
         v \<in> set (votes d) \<or> v_face_verified v = Some True"
    using start by (rule vote_run_verified)
  have many: "\<forall>v\<in>set (votes (cast_attempts b d attempts)).
         v \<in> set (votes d) \<or> v_face_verified v = Some True"
    by (rule cast_attempts_verified) simp
  have only: "\<forall>uid c. vp_selectedCandidate page = Some c \<longrightarrow>
         fst (verifyAndSubmit b d (Some uid) electionId now rnd page)
           = (case votes_insert d (Some uid)
                     \<lparr>v_election_id = electionId, v_candidate_id = c, v_voter_id = uid,
                      v_vote_receipt = ''VR-'' @ now @ ''-'' @ rnd,
                      v_face_verified = Some True\<rparr>
              of Inl err \<Rightarrow> d | Inr d' \<Rightarrow> d')"
    by (auto simp: verifyAndSubmit_def Let_def split: sum.splits)
  from verifyAndSubmit_votes [of b d session electionId now rnd page] run many only
  show ?thesis by blast
qed

theorem cast_ballots_are_marked_verified_witness:
  "vp_stream ((ready_page 101)\<lparr>vp_stream := None\<rparr>) = None
   \<and> votes (fst (verifyAndSubmit False poll_db (Some 101) 1 ''1700000000000'' ''k3j9x2m1q''
                   ((ready_page 101)\<lparr>vp_stream := None\<rparr>)))
       = [\<lparr>v_election_id = 1, v_candidate_id = 21, v_voter_id = 101,
           v_vote_receipt = ''VR-1700000000000-k3j9x2m1q'', v_face_verified = Some True\<rparr>]
   \<and> map v_face_verified
        (votes (fst (vote_run False 1 (poll_db, loadElection poll_db (Some 105) 1 vote_initial)
           [ClickCandidate 22, ClickCastVote, ClickStartVerification True,
            ClickVerifySubmit (Some 105) ''1700000000000'' ''k3j9x2m1q''])))
       = [Some True]"
proof -
  note w = cast_ballots_are_marked_verified [where b = False and d = poll_db
      and session = "Some 101" and electionId = 1 and now = "''1700000000000''"
      and rnd = "''k3j9x2m1q''" and page = "(ready_page 101)\<lparr>vp_stream := None\<rparr>"]
  have sel: "vp_selectedCandidate ((ready_page 101)\<lparr>vp_stream := None\<rparr>) = Some 21"
    by (simp add: ready_page_eq)
  have ins: "votes_insert poll_db (Some 101)
               \<lparr>v_election_id = 1, v_candidate_id = 21, v_voter_id = 101,
                v_vote_receipt = ''VR-'' @ ''1700000000000'' @ ''-'' @ ''k3j9x2m1q'',
                v_face_verified = Some True\<rparr>
             = Inr (poll_db\<lparr>votes :=
                 [\<lparr>v_election_id = 1, v_candidate_id = 21, v_voter_id = 101,
                   v_vote_receipt = ''VR-1700000000000-k3j9x2m1q'',
                   v_face_verified = Some True\<rparr>]\<rparr>)"
    by (simp add: votes_insert_def poll_db_def registered_def)
  from w sel have "fst (verifyAndSubmit False poll_db (Some 101) 1 ''1700000000000'' ''k3j9x2m1q''
                   ((ready_page 101)\<lparr>vp_stream := None\<rparr>))
      = (case votes_insert poll_db (Some 101)
               \<lparr>v_election_id = 1, v_candidate_id = 21, v_voter_id = 101,
                v_vote_receipt = ''VR-'' @ ''1700000000000'' @ ''-'' @ ''k3j9x2m1q'',
                v_face_verified = Some True\<rparr>
         of Inl err \<Rightarrow> poll_db | Inr d' \<Rightarrow> d')"
    by blast
  then have one: "votes (fst (verifyAndSubmit False poll_db (Some 101) 1 ''1700000000000''
                   ''k3j9x2m1q'' ((ready_page 101)\<lparr>vp_stream := None\<rparr>)))
       = [\<lparr>v_election_id = 1, v_candidate_id = 21, v_voter_id = 101,
           v_vote_receipt = ''VR-1700000000000-k3j9x2m1q'', v_face_verified = Some True\<rparr>]"
    using ins by simp
  have cam: "vp_stream ((ready_page 101)\<lparr>vp_stream := None\<rparr>) = None" by simp
  have flow: "map v_face_verified
        (votes (fst (vote_run False 1 (poll_db, loadElection poll_db (Some 105) 1 vote_initial)
           [ClickCandidate 22, ClickCastVote, ClickStartVerification True,
            ClickVerifySubmit (Some 105) ''1700000000000'' ''k3j9x2m1q''])))
       = [Some True]"
    by (simp add: vote_run_def vote_step_def rendered_def loadElection_def
      election_by_id_def elections_select_def candidates_select_def votes_select_def
      poll_db_def vote_initial_def handleCastVote_def startCamera_def Let_def
      verifyAndSubmit_def votes_insert_def registered_def)
  from cam one flow show ?thesis by blast
qed

end
